theory Spec2Isabelle
  imports Complex_Main "HOL-Library.Signed_Division"
begin

section \<open>Types of the FDC service layer (src/types/FDCTypes.ts)\<close>

text \<open>
  JavaScript numbers that the code computes with (intervals, delays, clock readings)
  are modelled as rationals (the adaptive poller multiplies by 1.5); counts and
  identifiers are integers. The deadline \<open>maxWaitTimeMs\<close> is only tested and compared,
  and is modelled with the values that are not finite as well.
\<close>

datatype number = Finite rat | NaN | Infinity | MinusInfinity

datatype AttestationType =
  Web2Json | PaymentVerification | BalanceDecreasing | AddressValidity | BlockHeight

datatype SourceId = PublicWeb2

record AttestationRequest =
  url :: string
  httpMethod :: string
  headers :: string
  queryParams :: string
  body :: string
  postProcessJq :: string
  abiSignature :: string

record PreparedAttestationRequest =
  status :: string
  abiEncodedRequest :: string

record ProofData =
  response_hex :: string
  attestation_type :: string
  proof' :: "string list"

record RoundInfo =
  roundId :: int
  blockNumber :: int
  blockTimestamp :: int

text \<open>
  \<open>AttestationRequestParams\<close>: three required strings and four optional ones
  (\<open>None\<close> is the absent property).
\<close>

record AttestationRequestParams =
  apiUrl :: string
  p_postProcessJq :: string
  p_abiSignature :: string
  p_httpMethod :: "string option"
  p_headers :: "string option"
  p_queryParams :: "string option"
  p_body :: "string option"

record RetryOptions =
  maxAttempts :: "int option"
  initialDelayMs :: "rat option"
  maxDelayMs :: "rat option"
  backoffMultiplier :: "rat option"
  retryableErrors :: "string list option"

text \<open>
  An optional property of an options object is absent, present with the value
  \<open>undefined\<close>, or present with a value. Reading an absent or an undefined property
  gives \<open>undefined\<close> (\<open>None\<close>); an object spread tells the two apart.
\<close>

datatype 'a property = Absent | PresentUndefined | Present 'a

fun reading :: "'a property \<Rightarrow> 'a option" where
  "reading Absent = None"
| "reading PresentUndefined = None"
| "reading (Present v) = Some v"

text \<open>
  \<open>PollingOptions.onProgress\<close> is a callback; the model records whether one is
  given, and a given callback appends its message to the trace and returns.
\<close>

record PollingOptions =
  checkIntervalMs_prop :: "rat property"
  maxWaitTimeMs_prop :: "number property"
  onProgress_prop :: "unit property"

text \<open>\<open>options.checkIntervalMs\<close>, \<open>options.maxWaitTimeMs\<close>, and whether \<open>options.onProgress\<close> is truthy.\<close>

definition checkIntervalMs :: "PollingOptions \<Rightarrow> rat option" where
  "checkIntervalMs po = reading (checkIntervalMs_prop po)"

definition maxWaitTimeMs :: "PollingOptions \<Rightarrow> number option" where
  "maxWaitTimeMs po = reading (maxWaitTimeMs_prop po)"

definition onProgress :: "PollingOptions \<Rightarrow> bool" where
  "onProgress po = (onProgress_prop po = Present ())"

text \<open>
  The error classes. A message that is a template around the other constructor
  arguments is not stored: \<open>FDCError code detail\<close> keeps the code and the
  interpolated text, \<open>FDCRetryError attempts originalError\<close> and
  \<open>FDCTimeoutError phase timeoutMs\<close> keep their payload (the phase tells the two
  timeout messages apart).
\<close>

datatype timeout_phase = RoundNotFinalized int | ProofGenerationTimedOut

datatype error =
    Error string
  | FDCError string string
  | FDCRetryError int "error option"
  | FDCTimeoutError timeout_phase number

text \<open>A thrown value is an \<open>Error\<close> object or anything else (kept as its \<open>String(...)\<close>).\<close>

datatype thrown = ErrorObj error | NonError string

text \<open>\<open>error instanceof Error ? error : new Error(String(error))\<close>\<close>

fun toError :: "thrown \<Rightarrow> error" where
  "toError (ErrorObj e) = e"
| "toError (NonError s) = Error s"

text \<open>JavaScript \<open>x || d\<close> on an optional number and on an optional string.\<close>

definition num_or :: "'a::zero option \<Rightarrow> 'a \<Rightarrow> 'a" where
  "num_or x d = (case x of None \<Rightarrow> d | Some v \<Rightarrow> if v = 0 then d else v)"

definition str_or :: "string option \<Rightarrow> string \<Rightarrow> string" where
  "str_or x d = (case x of None \<Rightarrow> d | Some v \<Rightarrow> if v = [] then d else v)"

section \<open>The observable world\<close>

text \<open>
  Every effect of the service is an event appended to a trace; the clock is the value
  \<open>Date.now()\<close> returns. The clock advances while the caller sleeps and while a
  polling loop awaits its collaborator; the time the other calls take bears on no
  property stated here and is left out.
\<close>

record PrepareRequest =
  r_attestationType :: AttestationType
  r_sourceId :: SourceId
  requestBody :: AttestationRequest

datatype progress =
    RoundFinalized int
  | WaitingForRound int rat
  | WaitingForProof rat

datatype event =
    Call
  | VerifierPost PrepareRequest
  | OnRetry int error
  | Sleep rat
  | RequestAttestation string int
  | IsFinalized int int
  | Progress progress
  | ProofPost int string

record world =
  now :: rat
  trace :: "event list"

definition emit :: "event \<Rightarrow> world \<Rightarrow> world" where
  "emit e w = w\<lparr>trace := trace w @ [e]\<rparr>"

text \<open>
  Modelled from the spec: \<open>sleep\<close> (scripts/utils/core, not among the sources) suspends
  the caller for the given number of milliseconds: the clock advances by that much, and
  by nothing when the argument is not positive.
\<close>

definition sleep :: "rat \<Rightarrow> world \<Rightarrow> world" where
  "sleep ms w = emit (Sleep ms) (w\<lparr>now := now w + (if 0 < ms then ms else 0)\<rparr>)"

section \<open>RetryStrategy (src/services/FDCService.ts)\<close>

record RetryStrategy =
  rs_maxAttempts :: int
  rs_initialDelayMs :: rat
  rs_maxDelayMs :: rat
  rs_backoffMultiplier :: rat

text \<open>The constructor: each option falls back to its default when absent or zero.\<close>

definition RetryStrategy_new :: "RetryOptions \<Rightarrow> RetryStrategy" where
  "RetryStrategy_new options =
     \<lparr> rs_maxAttempts = num_or (maxAttempts options) 10,
       rs_initialDelayMs = num_or (initialDelayMs options) 1000,
       rs_maxDelayMs = num_or (maxDelayMs options) 60000,
       rs_backoffMultiplier = num_or (backoffMultiplier options) 2 \<rparr>"

text \<open>
  An operation is an effectful thunk: it reads and changes the world and returns a
  value (\<open>Inr\<close>) or throws (\<open>Inl\<close>).
\<close>

type_synonym 'a operation = "world \<Rightarrow> (thrown + 'a) \<times> world"

text \<open>The statement after the loop: \<open>throw new FDCRetryError(..., maxAttempts, lastError)\<close>.\<close>

definition exhausted :: "RetryStrategy \<Rightarrow> error option \<Rightarrow> error" where
  "exhausted rs lastError = FDCRetryError (rs_maxAttempts rs) lastError"

text \<open>
  The \<open>for\<close> loop of \<open>execute\<close>, from the given attempt on. \<open>onRetry\<close> tells whether
  the callback was passed; a callback records its arguments.
\<close>

function execute_loop ::
  "RetryStrategy \<Rightarrow> 'a operation \<Rightarrow> bool \<Rightarrow> int \<Rightarrow> rat \<Rightarrow> error option \<Rightarrow> world
     \<Rightarrow> (error + 'a) \<times> world" where
  "execute_loop rs operation onRetry attempt delay lastError w =
     (if attempt \<le> rs_maxAttempts rs then
        (case operation w of
           (Inr v, w1) \<Rightarrow> (Inr v, w1)
         | (Inl t, w1) \<Rightarrow>
             (if attempt = rs_maxAttempts rs then (Inl (exhausted rs (Some (toError t))), w1)
              else
                execute_loop rs operation onRetry (attempt + 1)
                  (min (delay * rs_backoffMultiplier rs) (rs_maxDelayMs rs))
                  (Some (toError t))
                  (sleep delay (if onRetry then emit (OnRetry attempt (toError t)) w1 else w1))))
      else (Inl (exhausted rs lastError), w))"
  by pat_completeness auto
termination
  by (relation "measure (\<lambda>(rs, operation, onRetry, attempt, delay, lastError, w).
        nat (rs_maxAttempts rs - attempt))") auto

declare execute_loop.simps [simp del]

definition execute :: "RetryStrategy \<Rightarrow> 'a operation \<Rightarrow> bool \<Rightarrow> world \<Rightarrow> (error + 'a) \<times> world" where
  "execute rs operation onRetry w =
     execute_loop rs operation onRetry 1 (rs_initialDelayMs rs) None w"

section \<open>ProofCache (src/services/FDCService.ts)\<close>

record CacheEntry =
  data :: ProofData
  timestamp :: rat

record ProofCache =
  cache :: "string \<rightharpoonup> CacheEntry"
  ttl :: rat

definition ProofCache_new :: "rat \<Rightarrow> ProofCache" where
  "ProofCache_new ttlMs = \<lparr> cache = Map.empty, ttl = ttlMs \<rparr>"

text \<open>
  \<open>get\<close> and \<open>set\<close> read \<open>Date.now()\<close>; the reading is the argument \<open>t\<close>. Both return
  the cache as they leave it.
\<close>

definition ProofCache_get :: "string \<Rightarrow> rat \<Rightarrow> ProofCache \<Rightarrow> ProofData option \<times> ProofCache" where
  "ProofCache_get key t c =
     (case cache c key of
        None \<Rightarrow> (None, c)
      | Some entry \<Rightarrow>
          (let age = t - timestamp entry
           in if age > ttl c then (None, c\<lparr>cache := (cache c)(key := None)\<rparr>)
              else (Some (data entry), c)))"

definition ProofCache_set :: "string \<Rightarrow> ProofData \<Rightarrow> rat \<Rightarrow> ProofCache \<Rightarrow> ProofCache" where
  "ProofCache_set key d t c = c\<lparr>cache := (cache c)(key \<mapsto> \<lparr> data = d, timestamp = t \<rparr>)\<rparr>"

definition ProofCache_clear :: "ProofCache \<Rightarrow> ProofCache" where
  "ProofCache_clear c = c\<lparr>cache := Map.empty\<rparr>"

text \<open>Decimal rendering of an integer, as the template string does for \<open>roundId\<close>.\<close>

fun show_nat :: "nat \<Rightarrow> string" where
  "show_nat n =
     (if n < 10 then [char_of (48 + n)]
      else show_nat (n div 10) @ [char_of (48 + n mod 10)])"

declare show_nat.simps [simp del]

definition show_int :: "int \<Rightarrow> string" where
  "show_int i = (if i < 0 then CHR ''-'' # show_nat (nat (- i)) else show_nat (nat i))"

definition generateKey :: "string \<Rightarrow> int \<Rightarrow> string" where
  "generateKey abiEncoded rid = abiEncoded @ '':'' @ show_int rid"

section \<open>Collaborators\<close>

text \<open>
  What \<open>fetch\<close> gives: a rejected promise, or a response with \<open>ok\<close>, \<open>status\<close>,
  \<open>statusText\<close> and the outcome of \<open>response.json()\<close>.
\<close>

datatype 'a response = Rejected thrown | Response bool int string "thrown + 'a"

text \<open>
  The services and contracts the engine talks to. Each answer may depend on everything
  observable so far (the clock and the trace) and on the arguments of the call.
  \<open>getRequestFee\<close> stands for all the steps of \<open>submitAttestationRequest\<close> before the
  transaction (hub and address lookup, fee query); \<open>requestAttestation\<close> gives the block
  number of the receipt and \<open>getBlock\<close> the block's timestamp.
\<close>

record env =
  verifier :: "world \<Rightarrow> PrepareRequest \<Rightarrow> PreparedAttestationRequest response"
  getRequestFee :: "world \<Rightarrow> string \<Rightarrow> thrown + int"
  requestAttestation :: "world \<Rightarrow> string \<Rightarrow> int \<Rightarrow> thrown + int"
  getBlock :: "world \<Rightarrow> int \<Rightarrow> thrown + int"
  firstVotingRoundStartTs :: "world \<Rightarrow> thrown + int"
  votingEpochDurationSeconds :: "world \<Rightarrow> thrown + int"
  fdcProtocolId :: "world \<Rightarrow> thrown + int"
  isFinalized :: "world \<Rightarrow> int \<Rightarrow> int \<Rightarrow> thrown + bool"
  daLayer :: "world \<Rightarrow> int \<Rightarrow> string \<Rightarrow> ProofData response"
  callTime :: "world \<Rightarrow> rat"

text \<open>
  \<open>callTime\<close> is the time that passes on the wall clock while a polling loop awaits the
  answer of its collaborator (\<open>relay.isFinalized\<close>, the \<open>fetch\<close> of the proof).
\<close>

definition awaited :: "env \<Rightarrow> world \<Rightarrow> world" where
  "awaited e w = w\<lparr>now := now w + callTime e w\<rparr>"

section \<open>FDCService (src/services/FDCService.ts)\<close>

text \<open>The part of \<open>ConfigManager.getFDCConfig()\<close> the service reads.\<close>

record FDCConfig =
  requestRetryAttempts :: int
  roundFinalizationCheckIntervalMs :: rat
  proofGenerationCheckIntervalMs :: rat
  maxRoundFinalizationWaitMs :: rat
  enableProofCache :: bool
  proofCacheTtlMs :: rat

record FDCServiceOptions =
  enableCaching :: "bool option"
  cacheTtlMs :: "rat option"
  o_defaultRetryOptions :: "RetryOptions option"
  o_defaultPollingOptions :: "PollingOptions option"

record FDCService =
  fdcConfig :: FDCConfig
  proofCache :: "ProofCache option"
  defaultRetryOptions :: RetryOptions
  defaultPollingOptions :: PollingOptions

definition FDCService_new :: "FDCConfig \<Rightarrow> FDCServiceOptions \<Rightarrow> FDCService" where
  "FDCService_new cfg options =
     \<lparr> fdcConfig = cfg,
       proofCache =
         (if (case enableCaching options of Some b \<Rightarrow> b | None \<Rightarrow> enableProofCache cfg)
          then Some (ProofCache_new (num_or (cacheTtlMs options) (proofCacheTtlMs cfg)))
          else None),
       defaultRetryOptions =
         (case o_defaultRetryOptions options of
            Some r \<Rightarrow> r
          | None \<Rightarrow> \<lparr> maxAttempts = Some (requestRetryAttempts cfg),
                     initialDelayMs = Some 1000,
                     maxDelayMs = Some 60000,
                     backoffMultiplier = Some 2,
                     retryableErrors = None \<rparr>),
       defaultPollingOptions =
         (case o_defaultPollingOptions options of
            Some p \<Rightarrow> p
          | None \<Rightarrow> \<lparr> checkIntervalMs_prop = Present (roundFinalizationCheckIntervalMs cfg),
                     maxWaitTimeMs_prop = Present (Finite (maxRoundFinalizationWaitMs cfg)),
                     onProgress_prop = Absent \<rparr>) \<rparr>"

text \<open>
  The object spread \<open>{ ...defaults, ...options }\<close>: every property that \<open>options\<close> has
  wins, also one whose value is \<open>undefined\<close>.
\<close>

definition override :: "'a property \<Rightarrow> 'a property \<Rightarrow> 'a property" where
  "override d p = (case p of Absent \<Rightarrow> d | PresentUndefined \<Rightarrow> PresentUndefined | Present v \<Rightarrow> Present v)"

definition spread :: "PollingOptions \<Rightarrow> PollingOptions \<Rightarrow> PollingOptions" where
  "spread defaults options =
     \<lparr> checkIntervalMs_prop = override (checkIntervalMs_prop defaults) (checkIntervalMs_prop options),
       maxWaitTimeMs_prop = override (maxWaitTimeMs_prop defaults) (maxWaitTimeMs_prop options),
       onProgress_prop = override (onProgress_prop defaults) (onProgress_prop options) \<rparr>"

subsection \<open>prepareAttestationRequest\<close>

text \<open>The operation handed to \<open>retryStrategy.execute\<close>: one POST to the verifier.\<close>

definition prepare_operation :: "env \<Rightarrow> PrepareRequest \<Rightarrow> PreparedAttestationRequest operation" where
  "prepare_operation e request w =
     (let w1 = emit (VerifierPost request) w
      in case verifier e w request of
           Rejected t \<Rightarrow> (Inl t, w1)
         | Response ok st stText json \<Rightarrow>
             (if \<not> ok then
                (Inl (ErrorObj (FDCError ''VERIFIER_ERROR'' (show_int st @ '': '' @ stText))), w1)
              else
                (case json of
                   Inl t \<Rightarrow> (Inl t, w1)
                 | Inr d \<Rightarrow>
                     (if status d \<noteq> ''VALID'' then
                        (Inl (ErrorObj (FDCError ''INVALID_REQUEST'' (status d))), w1)
                      else (Inr d, w1)))))"

definition prepareAttestationRequest ::
  "env \<Rightarrow> FDCService \<Rightarrow> AttestationRequestParams \<Rightarrow> AttestationType \<Rightarrow> SourceId \<Rightarrow> world
     \<Rightarrow> (error + PreparedAttestationRequest) \<times> world" where
  "prepareAttestationRequest e svc params attestationType sourceId w =
     (let reqBody =
            \<lparr> url = apiUrl params,
              httpMethod = str_or (p_httpMethod params) ''GET'',
              headers = str_or (p_headers params) ''{}'',
              queryParams = str_or (p_queryParams params) ''{}'',
              body = str_or (p_body params) ''{}'',
              postProcessJq = p_postProcessJq params,
              abiSignature = p_abiSignature params \<rparr>;
          request =
            \<lparr> r_attestationType = attestationType,
              r_sourceId = sourceId,
              requestBody = reqBody \<rparr>;
          retryStrategy = RetryStrategy_new (defaultRetryOptions svc)
      in execute retryStrategy (prepare_operation e request) False w)"

subsection \<open>submitAttestationRequest\<close>

text \<open>
  The round id is a BigInt quotient: it truncates towards zero and throws a RangeError
  on a zero divisor. The explorer URL (a string built from the round id) is left out.
\<close>

definition submitAttestationRequest ::
  "env \<Rightarrow> string \<Rightarrow> world \<Rightarrow> (thrown + RoundInfo) \<times> world" where
  "submitAttestationRequest e abiEncoded w =
     (case getRequestFee e w abiEncoded of
        Inl t \<Rightarrow> (Inl t, w)
      | Inr requestFee \<Rightarrow>
          (let w1 = emit (RequestAttestation abiEncoded requestFee) w
           in case requestAttestation e w abiEncoded requestFee of
                Inl t \<Rightarrow> (Inl t, w1)
              | Inr blockNo \<Rightarrow>
                  (case getBlock e w1 blockNo of
                     Inl t \<Rightarrow> (Inl t, w1)
                   | Inr blockTs \<Rightarrow>
                       (case firstVotingRoundStartTs e w1 of
                          Inl t \<Rightarrow> (Inl t, w1)
                        | Inr firstTs \<Rightarrow>
                            (case votingEpochDurationSeconds e w1 of
                               Inl t \<Rightarrow> (Inl t, w1)
                             | Inr duration \<Rightarrow>
                                 (if duration = 0 then
                                    (Inl (ErrorObj (Error ''Division by zero'')), w1)
                                  else
                                    (Inr \<lparr> roundId = (blockTs - firstTs) sdiv duration,
                                           blockNumber = blockNo,
                                           blockTimestamp = blockTs \<rparr>, w1)))))))"

subsection \<open>waitForRoundFinalization\<close>

text \<open>
  A number is truthy unless it is zero or NaN; \<open>exceeds elapsed limit\<close> is the
  comparison \<open>elapsed > limit\<close> of a finite number with any number.
\<close>

fun truthy :: "number \<Rightarrow> bool" where
  "truthy (Finite x) = (x \<noteq> 0)"
| "truthy NaN = False"
| "truthy Infinity = True"
| "truthy MinusInfinity = True"

fun exceeds :: "rat \<Rightarrow> number \<Rightarrow> bool" where
  "exceeds elapsed (Finite x) = (elapsed > x)"
| "exceeds elapsed NaN = False"
| "exceeds elapsed Infinity = False"
| "exceeds elapsed MinusInfinity = True"

text \<open>
  \<open>pollingOptions.maxWaitTimeMs && elapsed > pollingOptions.maxWaitTimeMs\<close>: the limit
  that was exceeded, or \<open>None\<close> when there is no limit (the property reads
  \<open>undefined\<close>, zero or NaN) or it is not exceeded.
\<close>

definition overdue :: "number option \<Rightarrow> rat \<Rightarrow> number option" where
  "overdue maxWait elapsed =
     (case maxWait of
        None \<Rightarrow> None
      | Some limit \<Rightarrow> if truthy limit \<and> exceeds elapsed limit then Some limit else None)"

text \<open>
  The \<open>while (true)\<close> loop. The first argument bounds the number of iterations that are
  followed: the result \<open>None\<close> says that the loop is still polling after that many, and
  the world is the one reached by then.
\<close>

fun wait_loop ::
  "nat \<Rightarrow> env \<Rightarrow> PollingOptions \<Rightarrow> int \<Rightarrow> int \<Rightarrow> rat \<Rightarrow> rat \<Rightarrow> nat \<Rightarrow> world
     \<Rightarrow> (thrown + unit) option \<times> world" where
  "wait_loop 0 e pollingOptions protocolId rid startTime checkInterval consecutiveChecks w =
     (None, w)"
| "wait_loop (Suc n) e pollingOptions protocolId rid startTime checkInterval consecutiveChecks w =
     (let w1 = emit (IsFinalized protocolId rid) (awaited e w)
      in case isFinalized e w protocolId rid of
           Inl t \<Rightarrow> (Some (Inl t), w1)
         | Inr True \<Rightarrow>
             (Some (Inr ()),
              if onProgress pollingOptions then emit (Progress (RoundFinalized rid)) w1 else w1)
         | Inr False \<Rightarrow>
             (let elapsed = now w1 - startTime
              in case overdue (maxWaitTimeMs pollingOptions) elapsed of
                   Some limit \<Rightarrow>
                     (Some (Inl (ErrorObj (FDCTimeoutError (RoundNotFinalized rid) limit))), w1)
                 | None \<Rightarrow>
                     (let consecutiveChecks' = consecutiveChecks + 1;
                          checkInterval' =
                            (if consecutiveChecks' > 5 \<and> checkInterval < 60000
                             then min (checkInterval * (3 / 2)) 60000
                             else checkInterval);
                          w2 = (if onProgress pollingOptions
                                then emit (Progress (WaitingForRound rid elapsed)) w1
                                else w1)
                      in wait_loop n e pollingOptions protocolId rid startTime
                           checkInterval' consecutiveChecks' (sleep checkInterval' w2))))"

definition waitForRoundFinalization ::
  "nat \<Rightarrow> env \<Rightarrow> FDCService \<Rightarrow> int \<Rightarrow> PollingOptions \<Rightarrow> world
     \<Rightarrow> (thrown + unit) option \<times> world" where
  "waitForRoundFinalization n e svc rid options w =
     (let pollingOptions = spread (defaultPollingOptions svc) options
      in case fdcProtocolId e w of
           Inl t \<Rightarrow> (Some (Inl t), w)
         | Inr protocolId \<Rightarrow>
             wait_loop n e pollingOptions protocolId rid (now w)
               (num_or (checkIntervalMs pollingOptions) 30000) 0 w)"

subsection \<open>retrieveProof\<close>

text \<open>
  The second \<open>while (true)\<close> loop, with the same convention for the first argument.
  \<open>data.response_hex\<close> is falsy when the property is missing or the empty string;
  both are the empty string here.
\<close>

fun proof_loop ::
  "nat \<Rightarrow> env \<Rightarrow> PollingOptions \<Rightarrow> rat \<Rightarrow> int \<Rightarrow> string \<Rightarrow> rat \<Rightarrow> world
     \<Rightarrow> (thrown + ProofData) option \<times> world" where
  "proof_loop 0 e pollingOptions interval rid abiEncoded startTime w = (None, w)"
| "proof_loop (Suc n) e pollingOptions interval rid abiEncoded startTime w =
     (let w1 = emit (ProofPost rid abiEncoded) (awaited e w)
      in case daLayer e w rid abiEncoded of
           Rejected t \<Rightarrow> (Some (Inl t), w1)
         | Response ok st stText json \<Rightarrow>
             (case (if ok then
                      (case json of
                         Inl t \<Rightarrow> Inl t
                       | Inr d \<Rightarrow> Inr (if response_hex d \<noteq> [] then Some d else None))
                    else Inr None) of
                Inl t \<Rightarrow> (Some (Inl t), w1)
              | Inr (Some d) \<Rightarrow> (Some (Inr d), w1)
              | Inr None \<Rightarrow>
                  (let elapsed = now w1 - startTime
                   in case overdue (maxWaitTimeMs pollingOptions) elapsed of
                        Some limit \<Rightarrow>
                          (Some (Inl (ErrorObj (FDCTimeoutError ProofGenerationTimedOut limit))), w1)
                      | None \<Rightarrow>
                          (let w2 = (if onProgress pollingOptions
                                     then emit (Progress (WaitingForProof elapsed)) w1
                                     else w1)
                           in proof_loop n e pollingOptions interval rid abiEncoded startTime
                                (sleep interval w2)))))"

text \<open>
  \<open>retrieveProof\<close> returns the service as well, since it reads and fills the cache. The
  check \<open>if (!proof)\<close> after the loop cannot fire (the loop is left only with a proof)
  and has no counterpart.
\<close>

definition retrieveProof ::
  "nat \<Rightarrow> env \<Rightarrow> FDCService \<Rightarrow> string \<Rightarrow> int \<Rightarrow> PollingOptions \<Rightarrow> world
     \<Rightarrow> (thrown + ProofData) option \<times> FDCService \<times> world" where
  "retrieveProof n e svc abiEncoded rid options w =
     (let (cached, svc1) =
            (case proofCache svc of
               None \<Rightarrow> (None, svc)
             | Some c \<Rightarrow>
                 (let (r, c') = ProofCache_get (generateKey abiEncoded rid) (now w) c
                  in (r, svc\<lparr>proofCache := Some c'\<rparr>)))
      in case cached of
           Some d \<Rightarrow> (Some (Inr d), svc1, w)
         | None \<Rightarrow>
             (let pollingOptions = spread (defaultPollingOptions svc1) options
              in case waitForRoundFinalization n e svc1 rid pollingOptions w of
                   (None, w1) \<Rightarrow> (None, svc1, w1)
                 | (Some (Inl t), w1) \<Rightarrow> (Some (Inl t), svc1, w1)
                 | (Some (Inr u), w1) \<Rightarrow>
                     (let w2 = sleep 10000 w1;
                          startTime = now w2;
                          interval = num_or (checkIntervalMs pollingOptions)
                                       (proofGenerationCheckIntervalMs (fdcConfig svc1))
                      in case proof_loop n e pollingOptions interval rid abiEncoded startTime w2 of
                           (None, w3) \<Rightarrow> (None, svc1, w3)
                         | (Some (Inl t), w3) \<Rightarrow> (Some (Inl t), svc1, w3)
                         | (Some (Inr d), w3) \<Rightarrow>
                             (Some (Inr d),
                              (case proofCache svc1 of
                                 None \<Rightarrow> svc1
                               | Some c \<Rightarrow>
                                   svc1\<lparr>proofCache :=
                                     Some (ProofCache_set (generateKey abiEncoded rid) d (now w3) c)\<rparr>),
                              w3))))"

subsection \<open>executeAttestationWorkflow\<close>

text \<open>An absent \<open>pollingOptions\<close> argument is the default parameter \<open>{}\<close> of \<open>retrieveProof\<close>.\<close>

definition no_options :: PollingOptions where
  "no_options =
     \<lparr> checkIntervalMs_prop = Absent, maxWaitTimeMs_prop = Absent, onProgress_prop = Absent \<rparr>"

definition executeAttestationWorkflow ::
  "nat \<Rightarrow> env \<Rightarrow> FDCService \<Rightarrow> AttestationRequestParams \<Rightarrow> AttestationType \<Rightarrow> SourceId
     \<Rightarrow> PollingOptions option \<Rightarrow> world
     \<Rightarrow> (thrown + RoundInfo \<times> ProofData) option \<times> FDCService \<times> world" where
  "executeAttestationWorkflow n e svc params attestationType sourceId pollingOptions w =
     (case prepareAttestationRequest e svc params attestationType sourceId w of
        (Inl err, w1) \<Rightarrow> (Some (Inl (ErrorObj err)), svc, w1)
      | (Inr prepared, w1) \<Rightarrow>
          (case submitAttestationRequest e (abiEncodedRequest prepared) w1 of
             (Inl t, w2) \<Rightarrow> (Some (Inl t), svc, w2)
           | (Inr roundInfo, w2) \<Rightarrow>
               (case retrieveProof n e svc (abiEncodedRequest prepared) (roundId roundInfo)
                       (case pollingOptions of None \<Rightarrow> no_options | Some po \<Rightarrow> po) w2 of
                  (None, svc', w3) \<Rightarrow> (None, svc', w3)
                | (Some (Inl t), svc', w3) \<Rightarrow> (Some (Inl t), svc', w3)
                | (Some (Inr d), svc', w3) \<Rightarrow> (Some (Inr (roundInfo, d)), svc', w3))))"

section \<open>AttestationRequestBuilder (src/builders/AttestationRequestBuilder.ts)\<close>

text \<open>
  The builder's \<open>params\<close> is a \<open>Partial<AttestationRequestParams>\<close>: every property may
  be unset.
\<close>

record AttestationRequestBuilder =
  b_apiUrl :: "string option"
  b_postProcessJq :: "string option"
  b_abiSignature :: "string option"
  b_httpMethod :: "string option"
  b_headers :: "string option"
  b_queryParams :: "string option"
  b_body :: "string option"
  b_attestationType :: AttestationType
  b_sourceId :: SourceId

definition createAttestationRequest :: AttestationRequestBuilder where
  "createAttestationRequest =
     \<lparr> b_apiUrl = None, b_postProcessJq = None, b_abiSignature = None, b_httpMethod = None,
       b_headers = None, b_queryParams = None, b_body = None,
       b_attestationType = Web2Json, b_sourceId = PublicWeb2 \<rparr>"

text \<open>
  A setter that takes \<open>string | Record\<close> stores the string itself or
  \<open>JSON.stringify\<close> of the object; \<open>AsObject\<close> carries that rendering.
\<close>

datatype string_or_object = AsString string | AsObject string

fun as_json :: "string_or_object \<Rightarrow> string" where
  "as_json (AsString s) = s"
| "as_json (AsObject rendering) = rendering"

definition builder_url :: "string \<Rightarrow> AttestationRequestBuilder \<Rightarrow> AttestationRequestBuilder" where
  "builder_url s b = b\<lparr>b_apiUrl := Some s\<rparr>"

definition builder_jqFilter :: "string \<Rightarrow> AttestationRequestBuilder \<Rightarrow> AttestationRequestBuilder" where
  "builder_jqFilter s b = b\<lparr>b_postProcessJq := Some s\<rparr>"

definition builder_abiSignature :: "string \<Rightarrow> AttestationRequestBuilder \<Rightarrow> AttestationRequestBuilder" where
  "builder_abiSignature s b = b\<lparr>b_abiSignature := Some s\<rparr>"

definition builder_method :: "string \<Rightarrow> AttestationRequestBuilder \<Rightarrow> AttestationRequestBuilder" where
  "builder_method s b = b\<lparr>b_httpMethod := Some s\<rparr>"

definition builder_headers ::
  "string_or_object \<Rightarrow> AttestationRequestBuilder \<Rightarrow> AttestationRequestBuilder" where
  "builder_headers x b = b\<lparr>b_headers := Some (as_json x)\<rparr>"

definition builder_queryParams ::
  "string_or_object \<Rightarrow> AttestationRequestBuilder \<Rightarrow> AttestationRequestBuilder" where
  "builder_queryParams x b = b\<lparr>b_queryParams := Some (as_json x)\<rparr>"

definition builder_body ::
  "string_or_object \<Rightarrow> AttestationRequestBuilder \<Rightarrow> AttestationRequestBuilder" where
  "builder_body x b = b\<lparr>b_body := Some (as_json x)\<rparr>"

definition builder_type ::
  "AttestationType \<Rightarrow> AttestationRequestBuilder \<Rightarrow> AttestationRequestBuilder" where
  "builder_type t b = b\<lparr>b_attestationType := t\<rparr>"

definition builder_source :: "SourceId \<Rightarrow> AttestationRequestBuilder \<Rightarrow> AttestationRequestBuilder" where
  "builder_source s b = b\<lparr>b_sourceId := s\<rparr>"

definition builder_reset :: "AttestationRequestBuilder \<Rightarrow> AttestationRequestBuilder" where
  "builder_reset b = createAttestationRequest"

text \<open>\<open>!x\<close> on an optional string: unset or empty.\<close>

definition falsy :: "string option \<Rightarrow> bool" where
  "falsy x = (case x of None \<Rightarrow> True | Some s \<Rightarrow> s = [])"

record BuiltRequest =
  built_params :: AttestationRequestParams
  built_attestationType :: AttestationType
  built_sourceId :: SourceId

definition build :: "AttestationRequestBuilder \<Rightarrow> error + BuiltRequest" where
  "build b =
     (if falsy (b_apiUrl b) then Inl (Error ''API URL is required'')
      else if falsy (b_postProcessJq b) then Inl (Error ''JQ filter is required'')
      else if falsy (b_abiSignature b) then Inl (Error ''ABI signature is required'')
      else
        Inr \<lparr> built_params =
                \<lparr> apiUrl = the (b_apiUrl b),
                  p_postProcessJq = the (b_postProcessJq b),
                  p_abiSignature = the (b_abiSignature b),
                  p_httpMethod = Some (str_or (b_httpMethod b) ''GET''),
                  p_headers = Some (str_or (b_headers b) ''{}''),
                  p_queryParams = Some (str_or (b_queryParams b) ''{}''),
                  p_body = Some (str_or (b_body b) ''{}'') \<rparr>,
              built_attestationType = b_attestationType b,
              built_sourceId = b_sourceId b \<rparr>)"

section \<open>WeatherInsuranceBase (src/base/WeatherInsuranceBase.ts)\<close>


definition createWeatherAttestationRequest :: "string \<Rightarrow> string \<Rightarrow> string \<Rightarrow> error + BuiltRequest" where
  "createWeatherAttestationRequest apiUrl' jqFilter abiSignature' =
     build (builder_source PublicWeb2 (builder_type Web2Json
       (builder_abiSignature abiSignature' (builder_jqFilter jqFilter
         (builder_url apiUrl' createAttestationRequest)))))"

definition executeWeatherAttestation ::
  "nat \<Rightarrow> env \<Rightarrow> FDCService \<Rightarrow> string \<Rightarrow> string \<Rightarrow> string \<Rightarrow> PollingOptions option \<Rightarrow> world
     \<Rightarrow> (thrown + RoundInfo \<times> ProofData) option \<times> FDCService \<times> world" where
  "executeWeatherAttestation n e svc apiUrl' jqFilter abiSignature' pollingOptions w =
     (case createWeatherAttestationRequest apiUrl' jqFilter abiSignature' of
        Inl err \<Rightarrow> (Some (Inl (ErrorObj err)), svc, w)
      | Inr built \<Rightarrow>
          executeAttestationWorkflow n e svc (built_params built) (built_attestationType built)
            (built_sourceId built) pollingOptions w)"

section \<open>Test doubles for the retry properties\<close>

text \<open>
  A scripted operation: its \<open>i\<close>-th invocation (counted from 0) has the outcome \<open>f i\<close>,
  and every invocation is recorded as a \<open>Call\<close>.
\<close>

definition scripted :: "(nat \<Rightarrow> thrown + 'a) \<Rightarrow> 'a operation" where
  "scripted f w = (f (count_list (trace w) Call), emit Call w)"

text \<open>The delay slept after the failed attempt number \<open>i + 1\<close>.\<close>

definition delay_after :: "RetryStrategy \<Rightarrow> nat \<Rightarrow> rat" where
  "delay_after rs i =
     ((\<lambda>d. min (d * rs_backoffMultiplier rs) (rs_maxDelayMs rs)) ^^ i) (rs_initialDelayMs rs)"

text \<open>
  What a failed attempt that is followed by another one leaves in the trace: the call,
  the callback (when one is passed) with the number of the attempt and the error the
  operation threw (a thrown value that is not an \<open>Error\<close> wrapped into one), and the sleep.
\<close>

definition failed_attempt ::
  "RetryStrategy \<Rightarrow> (nat \<Rightarrow> thrown + 'a) \<Rightarrow> bool \<Rightarrow> nat \<Rightarrow> event list" where
  "failed_attempt rs f onRetry i =
     Call # (if onRetry
             then [OnRetry (int i + 1)
                     (case projl (f i) of ErrorObj x \<Rightarrow> x | NonError s \<Rightarrow> Error s)]
             else [])
       @ [Sleep (delay_after rs i)]"

definition isOnRetry :: "event \<Rightarrow> bool" where
  "isOnRetry e = (case e of OnRetry a x \<Rightarrow> True | _ \<Rightarrow> False)"

definition isVerifierPost :: "event \<Rightarrow> bool" where
  "isVerifierPost e = (case e of VerifierPost r \<Rightarrow> True | _ \<Rightarrow> False)"

definition isRequestAttestation :: "event \<Rightarrow> bool" where
  "isRequestAttestation e = (case e of RequestAttestation a fee \<Rightarrow> True | _ \<Rightarrow> False)"

text \<open>The number of transactions sent to the hub, and the durations slept, in a trace.\<close>

definition submissions :: "event list \<Rightarrow> nat" where
  "submissions tr = length (filter isRequestAttestation tr)"

fun sleeps :: "event list \<Rightarrow> rat list" where
  "sleeps [] = []"
| "sleeps (Sleep d # es) = d # sleeps es"
| "sleeps (e # es) = sleeps es"

section \<open>Concrete collaborators and configurations\<close>

text \<open>\<open>ConfigManager.loadFDCConfig()\<close> with no environment variable set.\<close>

definition default_fdcConfig :: FDCConfig where
  "default_fdcConfig =
     \<lparr> requestRetryAttempts = 10,
       roundFinalizationCheckIntervalMs = 30000,
       proofGenerationCheckIntervalMs = 10000,
       maxRoundFinalizationWaitMs = 300000,
       enableProofCache = False,
       proofCacheTtlMs = 3600000 \<rparr>"

definition no_service_options :: FDCServiceOptions where
  "no_service_options =
     \<lparr> enableCaching = None, cacheTtlMs = None, o_defaultRetryOptions = None,
       o_defaultPollingOptions = None \<rparr>"

definition no_retry_options :: RetryOptions where
  "no_retry_options =
     \<lparr> maxAttempts = None, initialDelayMs = None, maxDelayMs = None, backoffMultiplier = None,
       retryableErrors = None \<rparr>"

definition world0 :: world where
  "world0 = \<lparr> now = 0, trace = [] \<rparr>"

text \<open>Collaborators none of which answers: every call throws.\<close>

definition silent_env :: env where
  "silent_env =
     \<lparr> verifier = (\<lambda>w r. Rejected (NonError ''unreachable'')),
       getRequestFee = (\<lambda>w a. Inl (NonError ''unreachable'')),
       requestAttestation = (\<lambda>w a fee. Inl (NonError ''unreachable'')),
       getBlock = (\<lambda>w b. Inl (NonError ''unreachable'')),
       firstVotingRoundStartTs = (\<lambda>w. Inl (NonError ''unreachable'')),
       votingEpochDurationSeconds = (\<lambda>w. Inl (NonError ''unreachable'')),
       fdcProtocolId = (\<lambda>w. Inl (NonError ''unreachable'')),
       isFinalized = (\<lambda>w p r. Inl (NonError ''unreachable'')),
       daLayer = (\<lambda>w r a. Rejected (NonError ''unreachable'')),
       callTime = (\<lambda>w. 0) \<rparr>"

definition valid_response :: "PreparedAttestationRequest response" where
  "valid_response =
     Response True 200 ''OK'' (Inr \<lparr> status = ''VALID'', abiEncodedRequest = ''0xdead'' \<rparr>)"

definition invalid_response :: "PreparedAttestationRequest response" where
  "invalid_response =
     Response True 200 ''OK'' (Inr \<lparr> status = ''INVALID'', abiEncodedRequest = [] \<rparr>)"

text \<open>A preparer that answers \<open>INVALID\<close> to the first POST and \<open>VALID\<close> afterwards.\<close>

definition invalid_then_valid_env :: env where
  "invalid_then_valid_env =
     silent_env\<lparr>verifier :=
       (\<lambda>w r. if filter isVerifierPost (trace w) = [] then invalid_response else valid_response)\<rparr>"

definition always_invalid_env :: env where
  "always_invalid_env = silent_env\<lparr>verifier := (\<lambda>w r. invalid_response)\<rparr>"

definition always_valid_env :: env where
  "always_valid_env = silent_env\<lparr>verifier := (\<lambda>w r. valid_response)\<rparr>"

definition example_params :: AttestationRequestParams where
  "example_params =
     \<lparr> apiUrl = ''https://swapi.info/api/people/3'',
       p_postProcessJq = ''{name: .name}'',
       p_abiSignature = ''(string name)'',
       p_httpMethod = None, p_headers = None, p_queryParams = None, p_body = None \<rparr>"

text \<open>A success-shaped response (2xx, parsable) whose status field is not \<open>VALID\<close>.\<close>

definition rejected_as_invalid :: "PreparedAttestationRequest response \<Rightarrow> bool" where
  "rejected_as_invalid r =
     (case r of
        Response ok st stText (Inr d) \<Rightarrow> ok \<and> status d \<noteq> ''VALID''
      | _ \<Rightarrow> False)"

text \<open>The error \<open>prepareAttestationRequest\<close> throws for such a response.\<close>

definition isInvalidRequest :: "error \<Rightarrow> bool" where
  "isInvalidRequest x =
     (case x of FDCError c s \<Rightarrow> c = ''INVALID_REQUEST'' \<and> s \<noteq> ''VALID'' | _ \<Rightarrow> False)"

definition verifierPosts :: "event list \<Rightarrow> nat" where
  "verifierPosts tr = length (filter isVerifierPost tr)"

text \<open>A run of \<open>get\<close> calls on one key, at the given clock readings, with nothing in between.\<close>

fun get_all :: "string \<Rightarrow> rat list \<Rightarrow> ProofCache \<Rightarrow> ProofData option list \<times> ProofCache" where
  "get_all key [] c = ([], c)"
| "get_all key (t # ts) c =
     (let (r, c') = ProofCache_get key t c;
          (rs, c'') = get_all key ts c'
      in (r # rs, c''))"

text \<open>A chain of fluent calls on a fresh builder, first call first.\<close>

datatype setter =
    Url string
  | JqFilter string
  | AbiSignature string
  | Method string
  | Headers string_or_object
  | QueryParams string_or_object
  | Body string_or_object
  | Type AttestationType
  | Source SourceId

fun apply_setter :: "AttestationRequestBuilder \<Rightarrow> setter \<Rightarrow> AttestationRequestBuilder" where
  "apply_setter b (Url s) = builder_url s b"
| "apply_setter b (JqFilter s) = builder_jqFilter s b"
| "apply_setter b (AbiSignature s) = builder_abiSignature s b"
| "apply_setter b (Method s) = builder_method s b"
| "apply_setter b (Headers x) = builder_headers x b"
| "apply_setter b (QueryParams x) = builder_queryParams x b"
| "apply_setter b (Body x) = builder_body x b"
| "apply_setter b (Type t) = builder_type t b"
| "apply_setter b (Source s) = builder_source s b"

definition chain :: "setter list \<Rightarrow> AttestationRequestBuilder" where
  "chain calls = foldl apply_setter createAttestationRequest calls"

definition isType :: "setter \<Rightarrow> bool" where
  "isType c = (case c of Type t \<Rightarrow> True | _ \<Rightarrow> False)"

definition isSource :: "setter \<Rightarrow> bool" where
  "isSource c = (case c of Source s \<Rightarrow> True | _ \<Rightarrow> False)"

definition example_proof :: ProofData where
  "example_proof = \<lparr> response_hex = ''0xbeef'', attestation_type = ''X'', proof' = [] \<rparr>"

section \<open>The expected poll intervals\<close>

text \<open>
  One adaptation step of the poller once more than five checks have been made, and the
  interval expected for the sleep number \<open>i\<close> (counted from 0) when the loop starts
  with the interval \<open>c0\<close>: the first five sleeps use \<open>c0\<close>.
\<close>

definition grow :: "rat \<Rightarrow> rat" where
  "grow c = (if c < 60000 then min (c * (3 / 2)) 60000 else c)"

definition interval_at :: "rat \<Rightarrow> nat \<Rightarrow> rat" where
  "interval_at c0 i = (grow ^^ (Suc i - 5)) c0"

text \<open>An oracle that never reports the round finalized.\<close>

definition never_finalized_env :: env where
  "never_finalized_env =
     silent_env\<lparr>fdcProtocolId := (\<lambda>w. Inr 200), isFinalized := (\<lambda>w p r. Inr False)\<rparr>"


definition interval_options :: "rat \<Rightarrow> PollingOptions" where
  "interval_options c =
     \<lparr> checkIntervalMs_prop = Present c, maxWaitTimeMs_prop = Absent, onProgress_prop = Absent \<rparr>"







text \<open>A preparer that accepts, a fee query that answers, and a hub that rejects the transaction.\<close>

definition failing_hub_env :: env where
  "failing_hub_env =
     always_valid_env\<lparr>getRequestFee := (\<lambda>w a. Inr 1),
       requestAttestation := (\<lambda>w a fee. Inl (ErrorObj (Error ''insufficient funds'')))\<rparr>"

section \<open>Basic facts about the world\<close>

lemma trace_emit [simp]: "trace (emit e w) = trace w @ [e]" by (simp add: emit_def)
lemma trace_sleep [simp]: "trace (sleep d w) = trace w @ [Sleep d]" by (simp add: sleep_def)
lemma now_emit [simp]: "now (emit e w) = now w" by (simp add: emit_def)
lemma now_sleep [simp]: "now (sleep d w) = now w + (if 0 < d then d else 0)" by (simp add: sleep_def emit_def)
lemma trace_awaited [simp]: "trace (awaited e w) = trace w" by (simp add: awaited_def)

lemma toError_thrown: "toError t = (case t of ErrorObj x \<Rightarrow> x | NonError s \<Rightarrow> Error s)"
  by (cases t) simp_all

lemma delay_after_Suc: "delay_after rs (Suc i) = min (delay_after rs i * rs_backoffMultiplier rs) (rs_maxDelayMs rs)"
  by (simp add: delay_after_def)

lemma count_failed_attempts:
  "count_list (concat (map (failed_attempt rs f b) xs)) Call = length xs"
  by (induction xs) (simp_all add: failed_attempt_def)

lemma onRetry_failed_attempts:
  "filter isOnRetry (concat (map (failed_attempt rs f b) xs)) =
     (if b then map (\<lambda>i. OnRetry (int i + 1) (case projl (f i) of ErrorObj x \<Rightarrow> x | NonError s \<Rightarrow> Error s)) xs else [])"
  by (induction xs) (simp_all add: failed_attempt_def isOnRetry_def)

lemma execute_loop_scripted_success:
  assumes "int k < rs_maxAttempts rs" "\<forall>i<k. isl (f i)" "f k = Inr v"
  shows "j \<le> k \<Longrightarrow> count_list (trace w) Call = j \<Longrightarrow>
     fst (execute_loop rs (scripted f) onRetry (int j + 1) (delay_after rs j) le w) = Inr v \<and>
     trace (snd (execute_loop rs (scripted f) onRetry (int j + 1) (delay_after rs j) le w)) =
       trace w @ concat (map (failed_attempt rs f onRetry) [j..<k]) @ [Call]"
proof (induction "k - j" arbitrary: j w le)
  case 0
  then have jk: "j = k" by simp
  show ?case using assms(1,3) 0(3) unfolding jk
    by (subst execute_loop.simps, subst execute_loop.simps) (simp add: scripted_def)
next
  case (Suc n)
  then have lt: "j < k" by simp
  then obtain t where t: "f j = Inl t" using assms(2) by (cases "f j") auto
  let ?w' = "sleep (delay_after rs j) (if onRetry then emit (OnRetry (int j + 1) (toError t)) (emit Call w) else emit Call w)"
  have cnt: "count_list (trace ?w') Call = Suc j" using Suc.prems(2) by simp
  have step: "execute_loop rs (scripted f) onRetry (int j + 1) (delay_after rs j) le w
     = execute_loop rs (scripted f) onRetry (int (Suc j) + 1) (delay_after rs (Suc j)) (Some (toError t)) ?w'"
    using assms(1) lt t Suc.prems(2)
    by (subst execute_loop.simps) (simp add: scripted_def delay_after_Suc)
  have IH: "fst (execute_loop rs (scripted f) onRetry (int (Suc j) + 1) (delay_after rs (Suc j)) (Some (toError t)) ?w') = Inr v \<and>
     trace (snd (execute_loop rs (scripted f) onRetry (int (Suc j) + 1) (delay_after rs (Suc j)) (Some (toError t)) ?w')) =
       trace ?w' @ concat (map (failed_attempt rs f onRetry) [Suc j..<k]) @ [Call]"
    using Suc.hyps(1)[of "Suc j" ?w' "Some (toError t)"] Suc.hyps(2) lt cnt by simp
  have up: "[j..<k] = j # [Suc j..<k]" using lt by (simp add: upt_conv_Cons)
  show ?case unfolding step using IH t by (simp add: up failed_attempt_def toError_thrown)
qed

lemma execute_loop_scripted_failure:
  assumes "int m = rs_maxAttempts rs" "\<forall>i<m. isl (f i)"
  shows "j < m \<Longrightarrow> count_list (trace w) Call = j \<Longrightarrow>
     fst (execute_loop rs (scripted f) onRetry (int j + 1) (delay_after rs j) le w) =
       Inl (FDCRetryError (int m) (Some (case projl (f (m - 1)) of ErrorObj x \<Rightarrow> x | NonError s \<Rightarrow> Error s))) \<and>
     trace (snd (execute_loop rs (scripted f) onRetry (int j + 1) (delay_after rs j) le w)) =
       trace w @ concat (map (failed_attempt rs f onRetry) [j..<m - 1]) @ [Call]"
proof (induction "m - 1 - j" arbitrary: j w le)
  case 0
  then have jm: "j = m - 1" "int j + 1 = rs_maxAttempts rs" using assms(1) by auto
  have "isl (f j)" using assms(2) 0(2) by simp
  then obtain t where t: "f j = Inl t" by (cases "f j") auto
  show ?case using t 0(3) jm assms(1)
    by (subst execute_loop.simps, subst execute_loop.simps) (simp add: scripted_def exhausted_def toError_thrown)
next
  case (Suc n)
  then have lt: "j < m - 1" by simp
  then have "isl (f j)" using assms(2) by simp
  then obtain t where t: "f j = Inl t" by (cases "f j") auto
  let ?w' = "sleep (delay_after rs j) (if onRetry then emit (OnRetry (int j + 1) (toError t)) (emit Call w) else emit Call w)"
  have cnt: "count_list (trace ?w') Call = Suc j" using Suc.prems(2) by simp
  have bound: "int j + 1 < rs_maxAttempts rs" using assms(1) lt by linarith
  have step: "execute_loop rs (scripted f) onRetry (int j + 1) (delay_after rs j) le w
     = execute_loop rs (scripted f) onRetry (int (Suc j) + 1) (delay_after rs (Suc j)) (Some (toError t)) ?w'"
    using bound t Suc.prems(2)
    by (subst execute_loop.simps) (simp add: scripted_def delay_after_Suc)
  have IH: "fst (execute_loop rs (scripted f) onRetry (int (Suc j) + 1) (delay_after rs (Suc j)) (Some (toError t)) ?w') =
       Inl (FDCRetryError (int m) (Some (case projl (f (m - 1)) of ErrorObj x \<Rightarrow> x | NonError s \<Rightarrow> Error s))) \<and>
     trace (snd (execute_loop rs (scripted f) onRetry (int (Suc j) + 1) (delay_after rs (Suc j)) (Some (toError t)) ?w')) =
       trace ?w' @ concat (map (failed_attempt rs f onRetry) [Suc j..<m - 1]) @ [Call]"
    using Suc.hyps(1)[of "Suc j" ?w' "Some (toError t)"] Suc.hyps(2) lt cnt by simp
  have up: "[j..<m - Suc 0] = j # [Suc j..<m - Suc 0]" using lt by (simp add: upt_conv_Cons)
  show ?case unfolding step using IH t by (simp add: up failed_attempt_def toError_thrown)
qed

lemma execute_loop_appends:
  assumes Q: "\<And>d. Q (Sleep d)" "\<And>a x. Q (OnRetry a x)"
  shows "\<forall>w. \<exists>evs. trace (snd (operation w)) = trace w @ evs \<and> (\<forall>x\<in>set evs. Q x) \<Longrightarrow>
    \<exists>evs. trace (snd (execute_loop rs operation b a d le w)) = trace w @ evs \<and> (\<forall>x\<in>set evs. Q x)"
proof (induction rs operation b a d le w rule: execute_loop.induct)
  case (1 rs operation onRetry attempt delay lastError w)
  note op = "1.prems"
  obtain r w1 where ow: "operation w = (r, w1)" by (cases "operation w")
  have "\<exists>evs. trace (snd (operation w)) = trace w @ evs \<and> (\<forall>x\<in>set evs. Q x)"
    using op by blast
  then obtain evs where evs: "trace w1 = trace w @ evs" "\<forall>x\<in>set evs. Q x"
    unfolding ow by auto
  show ?case
  proof (cases "attempt \<le> rs_maxAttempts rs")
    case False
    then show ?thesis by (subst execute_loop.simps) simp
  next
    case True
    show ?thesis
    proof (cases r)
      case (Inr v)
      then show ?thesis using True ow evs by (subst execute_loop.simps) simp
    next
      case (Inl t)
      show ?thesis
      proof (cases "attempt = rs_maxAttempts rs")
        case True
        then show ?thesis using ow evs Inl by (subst execute_loop.simps) simp
      next
        case ne: False
        let ?w' = "sleep delay (if onRetry then emit (OnRetry attempt (toError t)) w1 else w1)"
        from "1.IH"[OF True ow[symmetric] Inl ne op]
        obtain evs' where evs': "trace (snd (execute_loop rs operation onRetry (attempt + 1)
            (min (delay * rs_backoffMultiplier rs) (rs_maxDelayMs rs)) (Some (toError t)) ?w')) = trace ?w' @ evs'"
          "\<forall>x\<in>set evs'. Q x" by blast
        have "\<exists>mid. trace ?w' = trace w @ mid \<and> (\<forall>x\<in>set mid. Q x)"
          using evs Q by auto
        then obtain mid where mid: "trace ?w' = trace w @ mid" "\<forall>x\<in>set mid. Q x" by blast
        have "trace (snd (execute_loop rs operation onRetry attempt delay lastError w)) = trace w @ (mid @ evs')"
          using True ow Inl ne evs' mid by (subst execute_loop.simps) simp
        moreover have "\<forall>x\<in>set (mid @ evs'). Q x" using mid evs' by auto
        ultimately show ?thesis by blast
      qed
    qed
  qed
qed

section \<open>RetryStrategy: exhaustion and convergence\<close>

text \<open>
  C3. For every \<open>maxAttempts \<ge> 1\<close>, \<open>execute\<close> applied to an operation that always
  fails calls the operation exactly \<open>maxAttempts\<close> times and then fails with
  \<open>FDCRetryError\<close> carrying \<open>attempts = maxAttempts\<close> and the last underlying error:
  the \<open>Error\<close> object the last call threw, or the thrown value wrapped into an \<open>Error\<close>
  when it is not one. The trace is given in full: every failed attempt but the last is
  followed by the callback (when one is passed) and a sleep.
\<close>

theorem retry_exhaustion:
  assumes "maxAttempts options = Some m" "1 \<le> m" "\<forall>i. isl (f i)" "trace w = []"
  shows "fst (execute (RetryStrategy_new options) (scripted f) onRetry w) =
           Inl (FDCRetryError m (Some (case projl (f (nat m - 1)) of ErrorObj x \<Rightarrow> x | NonError s \<Rightarrow> Error s)))
       \<and> count_list (trace (snd (execute (RetryStrategy_new options) (scripted f) onRetry w))) Call = nat m
       \<and> trace (snd (execute (RetryStrategy_new options) (scripted f) onRetry w)) =
           concat (map (failed_attempt (RetryStrategy_new options) f onRetry) [0..<nat m - 1]) @ [Call]"
proof -
  let ?rs = "RetryStrategy_new options"
  have m: "int (nat m) = rs_maxAttempts ?rs"
    using assms(1,2) by (simp add: RetryStrategy_new_def num_or_def)
  have d0: "rs_initialDelayMs ?rs = delay_after ?rs 0" by (simp add: delay_after_def)
  have "fst (execute_loop ?rs (scripted f) onRetry (int 0 + 1) (delay_after ?rs 0) None w) =
       Inl (FDCRetryError (int (nat m)) (Some (case projl (f (nat m - 1)) of ErrorObj x \<Rightarrow> x | NonError s \<Rightarrow> Error s))) \<and>
     trace (snd (execute_loop ?rs (scripted f) onRetry (int 0 + 1) (delay_after ?rs 0) None w)) =
       trace w @ concat (map (failed_attempt ?rs f onRetry) [0..<nat m - 1]) @ [Call]"
    using assms(2,3,4) by (intro execute_loop_scripted_failure[OF m]) auto
  then have "fst (execute ?rs (scripted f) onRetry w) = Inl (FDCRetryError m (Some (case projl (f (nat m - 1)) of ErrorObj x \<Rightarrow> x | NonError s \<Rightarrow> Error s)))"
    and tr: "trace (snd (execute ?rs (scripted f) onRetry w)) =
       concat (map (failed_attempt ?rs f onRetry) [0..<nat m - 1]) @ [Call]"
    using assms(2,4) by (simp_all add: execute_def d0)
  moreover have "count_list (trace (snd (execute ?rs (scripted f) onRetry w))) Call = nat m"
    using assms(2) unfolding tr by (simp add: count_failed_attempts)
  ultimately show ?thesis by simp
qed

text \<open>
  Three attempts: the first two throw the string \<open>down\<close>, the last one throws an
  \<open>FDCError\<close> object, and that object is the one carried. The last conjunct is the
  run itself, evaluated.
\<close>

theorem retry_exhaustion_witness:
  "fst (execute (RetryStrategy_new (no_retry_options\<lparr>maxAttempts := Some 3\<rparr>))
        (scripted (\<lambda>i. if i = 2 then Inl (ErrorObj (FDCError ''VERIFIER_ERROR'' ''503: busy''))
                         else Inl (NonError ''down'') :: thrown + unit)) True world0) =
     Inl (FDCRetryError 3 (Some (FDCError ''VERIFIER_ERROR'' ''503: busy'')))
   \<and> count_list (trace (snd (execute (RetryStrategy_new (no_retry_options\<lparr>maxAttempts := Some 3\<rparr>))
        (scripted (\<lambda>i. if i = 2 then Inl (ErrorObj (FDCError ''VERIFIER_ERROR'' ''503: busy''))
                         else Inl (NonError ''down'') :: thrown + unit)) True world0))) Call = 3
   \<and> trace (snd (execute (RetryStrategy_new (no_retry_options\<lparr>maxAttempts := Some 3\<rparr>))
        (scripted (\<lambda>i. if i = 2 then Inl (ErrorObj (FDCError ''VERIFIER_ERROR'' ''503: busy''))
                         else Inl (NonError ''down'') :: thrown + unit)) True world0)) =
       [Call, OnRetry 1 (Error ''down''), Sleep 1000, Call, OnRetry 2 (Error ''down''), Sleep 2000, Call]
   \<and> execute (RetryStrategy_new (no_retry_options\<lparr>maxAttempts := Some 3\<rparr>))
        (scripted (\<lambda>i. if i = 2 then Inl (ErrorObj (FDCError ''VERIFIER_ERROR'' ''503: busy''))
                         else Inl (NonError ''down'') :: thrown + unit)) True world0 =
       (Inl (FDCRetryError 3 (Some (FDCError ''VERIFIER_ERROR'' ''503: busy''))),
        \<lparr> now = 3000,
          trace = [Call, OnRetry 1 (Error ''down''), Sleep 1000,
                   Call, OnRetry 2 (Error ''down''), Sleep 2000, Call] \<rparr>)"
proof -
  let ?f = "\<lambda>i. if i = 2 then Inl (ErrorObj (FDCError ''VERIFIER_ERROR'' ''503: busy''))
             else Inl (NonError ''down'') :: thrown + unit"
  let ?rs = "RetryStrategy_new (no_retry_options\<lparr>maxAttempts := Some 3\<rparr>)"
  have stated: "fst (execute ?rs (scripted ?f) True world0) =
       Inl (FDCRetryError 3 (Some (FDCError ''VERIFIER_ERROR'' ''503: busy'')))
     \<and> count_list (trace (snd (execute ?rs (scripted ?f) True world0))) Call = 3
     \<and> trace (snd (execute ?rs (scripted ?f) True world0)) =
       [Call, OnRetry 1 (Error ''down''), Sleep 1000, Call, OnRetry 2 (Error ''down''), Sleep 2000, Call]"
    using retry_exhaustion [of "no_retry_options\<lparr>maxAttempts := Some 3\<rparr>" 3 ?f world0 True]
    by (simp add: no_retry_options_def world0_def failed_attempt_def delay_after_def
        RetryStrategy_new_def num_or_def upt_rec)
  have run: "execute ?rs (scripted ?f) True world0 =
       (Inl (FDCRetryError 3 (Some (FDCError ''VERIFIER_ERROR'' ''503: busy''))),
        \<lparr> now = 3000,
          trace = [Call, OnRetry 1 (Error ''down''), Sleep 1000,
                   Call, OnRetry 2 (Error ''down''), Sleep 2000, Call] \<rparr>)"
    by code_simp
  from stated run show ?thesis by (elim conjE, intro conjI)
qed

text \<open>
  C4. For every \<open>k < maxAttempts\<close>, \<open>execute\<close> applied to an operation that fails
  exactly \<open>k\<close> times and then succeeds calls the operation exactly \<open>k + 1\<close> times and
  returns the success value (so no \<open>FDCRetryError\<close> is raised); \<open>onRetry(i, error)\<close> is
  invoked exactly for the attempts \<open>i = 1..k\<close>, each time after the failed call and
  before the sleep, with the error that attempt \<open>i\<close> threw (the \<open>Error\<close> object itself,
  or the thrown value wrapped into an \<open>Error\<close>).
\<close>

theorem retry_convergence:
  assumes "int k < rs_maxAttempts rs" "\<forall>i<k. isl (f i)" "f k = Inr v" "trace w = []"
  shows "fst (execute rs (scripted f) onRetry w) = Inr v
       \<and> count_list (trace (snd (execute rs (scripted f) onRetry w))) Call = k + 1
       \<and> filter isOnRetry (trace (snd (execute rs (scripted f) onRetry w))) =
           (if onRetry then map (\<lambda>i. OnRetry (int i + 1) (case projl (f i) of ErrorObj x \<Rightarrow> x | NonError s \<Rightarrow> Error s)) [0..<k] else [])
       \<and> trace (snd (execute rs (scripted f) onRetry w)) =
           concat (map (failed_attempt rs f onRetry) [0..<k]) @ [Call]"
proof -
  have d0: "rs_initialDelayMs rs = delay_after rs 0" by (simp add: delay_after_def)
  have "fst (execute_loop rs (scripted f) onRetry (int 0 + 1) (delay_after rs 0) None w) = Inr v \<and>
     trace (snd (execute_loop rs (scripted f) onRetry (int 0 + 1) (delay_after rs 0) None w)) =
       trace w @ concat (map (failed_attempt rs f onRetry) [0..<k]) @ [Call]"
    using assms(4) by (intro execute_loop_scripted_success[OF assms(1,2,3)]) auto
  then have r: "fst (execute rs (scripted f) onRetry w) = Inr v"
    and tr: "trace (snd (execute rs (scripted f) onRetry w)) =
       concat (map (failed_attempt rs f onRetry) [0..<k]) @ [Call]"
    using assms(4) by (simp_all add: execute_def d0)
  have c: "count_list (trace (snd (execute rs (scripted f) onRetry w))) Call = k + 1"
    unfolding tr by (simp add: count_failed_attempts)
  have o: "filter isOnRetry (trace (snd (execute rs (scripted f) onRetry w))) =
           (if onRetry then map (\<lambda>i. OnRetry (int i + 1) (case projl (f i) of ErrorObj x \<Rightarrow> x | NonError s \<Rightarrow> Error s)) [0..<k] else [])"
    unfolding tr by (simp add: onRetry_failed_attempts isOnRetry_def)
  show ?thesis using r c o tr by simp
qed

text \<open>
  Two failures, then success, with at most three attempts: the callback receives the
  \<open>Error\<close> object of the first attempt and the \<open>FDCError\<close> object of the second.
  The last conjunct is the run itself, evaluated.
\<close>

theorem retry_convergence_witness:
  "fst (execute \<lparr> rs_maxAttempts = 3, rs_initialDelayMs = 1000, rs_maxDelayMs = 1500,
          rs_backoffMultiplier = 2 \<rparr>
        (scripted (\<lambda>i. if i = 0 then Inl (ErrorObj (Error ''reset''))
                         else if i = 1 then Inl (ErrorObj (FDCError ''VERIFIER_ERROR'' ''503: busy''))
                         else Inr (7::int))) True world0) = Inr 7
   \<and> trace (snd (execute \<lparr> rs_maxAttempts = 3, rs_initialDelayMs = 1000, rs_maxDelayMs = 1500,
          rs_backoffMultiplier = 2 \<rparr>
        (scripted (\<lambda>i. if i = 0 then Inl (ErrorObj (Error ''reset''))
                         else if i = 1 then Inl (ErrorObj (FDCError ''VERIFIER_ERROR'' ''503: busy''))
                         else Inr (7::int))) True world0)) =
       [Call, OnRetry 1 (Error ''reset''), Sleep 1000,
        Call, OnRetry 2 (FDCError ''VERIFIER_ERROR'' ''503: busy''), Sleep 1500, Call]
   \<and> execute \<lparr> rs_maxAttempts = 3, rs_initialDelayMs = 1000, rs_maxDelayMs = 1500,
          rs_backoffMultiplier = 2 \<rparr>
        (scripted (\<lambda>i. if i = 0 then Inl (ErrorObj (Error ''reset''))
                         else if i = 1 then Inl (ErrorObj (FDCError ''VERIFIER_ERROR'' ''503: busy''))
                         else Inr (7::int))) True world0 =
       (Inr 7,
        \<lparr> now = 2500,
          trace = [Call, OnRetry 1 (Error ''reset''), Sleep 1000,
                   Call, OnRetry 2 (FDCError ''VERIFIER_ERROR'' ''503: busy''), Sleep 1500, Call] \<rparr>)"
proof -
  let ?f = "\<lambda>i. if i = 0 then Inl (ErrorObj (Error ''reset''))
             else if i = 1 then Inl (ErrorObj (FDCError ''VERIFIER_ERROR'' ''503: busy''))
             else Inr (7::int)"
  let ?rs = "\<lparr> rs_maxAttempts = 3, rs_initialDelayMs = 1000, rs_maxDelayMs = 1500,
          rs_backoffMultiplier = 2 \<rparr>"
  have stated: "fst (execute ?rs (scripted ?f) True world0) = Inr 7
     \<and> trace (snd (execute ?rs (scripted ?f) True world0)) =
       [Call, OnRetry 1 (Error ''reset''), Sleep 1000,
        Call, OnRetry 2 (FDCError ''VERIFIER_ERROR'' ''503: busy''), Sleep 1500, Call]"
    using retry_convergence [of 2 ?rs ?f 7 world0 True]
    by (simp add: world0_def failed_attempt_def delay_after_def upt_rec)
  have run: "execute ?rs (scripted ?f) True world0 =
       (Inr 7,
        \<lparr> now = 2500,
          trace = [Call, OnRetry 1 (Error ''reset''), Sleep 1000,
                   Call, OnRetry 2 (FDCError ''VERIFIER_ERROR'' ''503: busy''), Sleep 1500, Call] \<rparr>)"
    by code_simp
  from stated run show ?thesis by (elim conjE, intro conjI)
qed

section \<open>RetryStrategy: a zero attempt budget\<close>

lemma execute_first_call:
  assumes "1 \<le> rs_maxAttempts rs" "trace w = []"
  shows "\<exists>evs. trace (snd (execute rs (scripted f) onRetry w)) = Call # evs"
proof -
  have app: "\<forall>w. \<exists>evs. trace (snd (scripted f w)) = trace w @ evs \<and> (\<forall>x\<in>set evs. True)"
    by (simp add: scripted_def)
  show ?thesis
  proof (cases "f 0")
    case (Inr v)
    then show ?thesis using assms
      by (simp add: execute_def execute_loop.simps[of rs _ _ 1] scripted_def)
  next
    case (Inl t)
    show ?thesis
    proof (cases "rs_maxAttempts rs = 1")
      case True
      then show ?thesis using assms Inl
        by (simp add: execute_def execute_loop.simps[of rs _ _ 1] scripted_def)
    next
      case False
      let ?w' = "sleep (rs_initialDelayMs rs) (if onRetry then emit (OnRetry 1 (toError t)) (emit Call w) else emit Call w)"
      let ?d' = "min (rs_initialDelayMs rs * rs_backoffMultiplier rs) (rs_maxDelayMs rs)"
      have step: "execute rs (scripted f) onRetry w =
          execute_loop rs (scripted f) onRetry (1 + 1) ?d' (Some (toError t)) ?w'"
        using assms Inl False
        by (simp add: execute_def execute_loop.simps[of rs _ _ 1] scripted_def)
      obtain evs where "trace (snd (execute_loop rs (scripted f) onRetry (1 + 1) ?d' (Some (toError t)) ?w')) = trace ?w' @ evs"
        using execute_loop_appends[of "\<lambda>x. True" "scripted f" rs onRetry "1 + 1" ?d' "Some (toError t)" ?w'] app by auto
      then show ?thesis unfolding step using assms(2) by auto
    qed
  qed
qed

text \<open>
  C5 (as the code has it). Constructing a \<open>RetryStrategy\<close> with \<open>maxAttempts = 0\<close> is
  accepted: the constructor has no failure path, it treats 0 like an absent option and
  takes the default of 10 attempts, and \<open>execute\<close> then invokes the operation.
\<close>

theorem zero_maxAttempts_uses_default:
  assumes "maxAttempts options = Some 0" "trace w = []"
  shows "rs_maxAttempts (RetryStrategy_new options) = 10
       \<and> (\<exists>evs. trace (snd (execute (RetryStrategy_new options) (scripted f) onRetry w)) = Call # evs)"
proof -
  have m: "rs_maxAttempts (RetryStrategy_new options) = 10"
    using assms(1) by (simp add: RetryStrategy_new_def num_or_def)
  then have "1 \<le> rs_maxAttempts (RetryStrategy_new options)" by simp
  from execute_first_call[OF this assms(2)] m show ?thesis by blast
qed

theorem zero_maxAttempts_uses_default_witness:
  "rs_maxAttempts (RetryStrategy_new (no_retry_options\<lparr>maxAttempts := Some 0\<rparr>)) = 10
   \<and> (\<exists>evs. trace (snd (execute (RetryStrategy_new (no_retry_options\<lparr>maxAttempts := Some 0\<rparr>))
         (scripted (\<lambda>i. Inr ''done'' :: thrown + string)) False world0)) = Call # evs)"
  using zero_maxAttempts_uses_default [of "no_retry_options\<lparr>maxAttempts := Some 0\<rparr>" world0
         "\<lambda>i. Inr ''done'' :: thrown + string" False]
  by (simp add: no_retry_options_def world0_def)

text \<open>
  C5 as stated fails: with \<open>maxAttempts = 0\<close> nothing is rejected, the operation is
  invoked and its value is returned.
\<close>

theorem zero_maxAttempts_counterexample:
  "execute (RetryStrategy_new (no_retry_options\<lparr>maxAttempts := Some 0\<rparr>))
     (scripted (\<lambda>i. Inr ''done'' :: thrown + string)) False world0
   = (Inr ''done'', \<lparr> now = 0, trace = [Call] \<rparr>)"
  by (simp add: execute_def RetryStrategy_new_def num_or_def no_retry_options_def world0_def
        execute_loop.simps scripted_def emit_def)

section \<open>prepareAttestationRequest: a status other than VALID\<close>

lemma execute_loop_always_failing:
  assumes fails: "\<And>w. \<exists>t. fst (operation w) = Inl t \<and> P (toError t)"
    and counts: "\<And>w. length (filter K (trace (snd (operation w)))) = Suc (length (filter K (trace w)))"
    and K: "\<And>d. \<not> K (Sleep d)" "\<And>a x. \<not> K (OnRetry a x)"
  shows "1 \<le> a \<Longrightarrow> a \<le> rs_maxAttempts rs \<Longrightarrow>
     (\<exists>x. fst (execute_loop rs operation b a d le w) = Inl (FDCRetryError (rs_maxAttempts rs) (Some x)) \<and> P x) \<and>
     length (filter K (trace (snd (execute_loop rs operation b a d le w)))) =
       length (filter K (trace w)) + nat (rs_maxAttempts rs - a + 1)"
proof (induction "nat (rs_maxAttempts rs - a)" arbitrary: a d le w)
  case 0
  then have eq: "a = rs_maxAttempts rs" by simp
  obtain r w1 where ow: "operation w = (r, w1)" by (cases "operation w")
  obtain t where t: "r = Inl t" "P (toError t)" using fails[of w] unfolding ow by auto
  have c: "length (filter K (trace w1)) = Suc (length (filter K (trace w)))"
    using counts[of w] unfolding ow by simp
  show ?case using ow t c eq
    by (subst execute_loop.simps, subst execute_loop.simps) (simp add: exhausted_def)
next
  case (Suc n)
  then have lt: "a < rs_maxAttempts rs" by simp
  obtain r w1 where ow: "operation w = (r, w1)" by (cases "operation w")
  obtain t where t: "r = Inl t" "P (toError t)" using fails[of w] unfolding ow by auto
  have c: "length (filter K (trace w1)) = Suc (length (filter K (trace w)))"
    using counts[of w] unfolding ow by simp
  let ?w' = "sleep d (if b then emit (OnRetry a (toError t)) w1 else w1)"
  let ?d' = "min (d * rs_backoffMultiplier rs) (rs_maxDelayMs rs)"
  have c': "length (filter K (trace ?w')) = Suc (length (filter K (trace w)))"
    using c K by simp
  have step: "execute_loop rs operation b a d le w = execute_loop rs operation b (a + 1) ?d' (Some (toError t)) ?w'"
    using lt ow t by (subst execute_loop.simps) simp
  have n: "n = nat (rs_maxAttempts rs - (a + 1))" using Suc.hyps(2) by simp
  have IH: "(\<exists>x. fst (execute_loop rs operation b (a + 1) ?d' (Some (toError t)) ?w') = Inl (FDCRetryError (rs_maxAttempts rs) (Some x)) \<and> P x) \<and>
     length (filter K (trace (snd (execute_loop rs operation b (a + 1) ?d' (Some (toError t)) ?w')))) =
       length (filter K (trace ?w')) + nat (rs_maxAttempts rs - (a + 1) + 1)"
    using Suc.hyps(1)[OF n] Suc.prems lt by simp
  have ar: "Suc (nat (rs_maxAttempts rs - (a + 1) + 1)) = nat (rs_maxAttempts rs - a + 1)"
    using lt by simp
  show ?case unfolding step using IH c' ar by simp
qed

lemma prepare_operation_posts_once:
  "length (filter isVerifierPost (trace (snd (prepare_operation e request w)))) =
     Suc (length (filter isVerifierPost (trace w)))"
  by (simp add: prepare_operation_def Let_def isVerifierPost_def
      split: response.splits sum.splits)

lemma prepare_operation_invalid:
  assumes "rejected_as_invalid (verifier e w request)"
  shows "\<exists>t. fst (prepare_operation e request w) = Inl t \<and> isInvalidRequest (toError t)"
  using assms
  by (auto simp: prepare_operation_def Let_def rejected_as_invalid_def isInvalidRequest_def
      split: response.splits sum.splits)

text \<open>
  C1 (as the code has it). A success-shaped response whose status field differs from
  \<open>VALID\<close> makes the attempt fail with \<open>FDCError\<close> code \<open>INVALID_REQUEST\<close>, and
  \<open>RetryStrategy\<close> retries it like every other failure: when the preparer answers each
  attempt that way, the POST is issued \<open>maxAttempts\<close> times and the call fails with
  \<open>FDCRetryError\<close> carrying \<open>attempts = maxAttempts\<close> and that error.
\<close>

theorem invalid_status_is_retried:
  assumes "\<forall>w r. rejected_as_invalid (verifier e w r)"
    and "1 \<le> rs_maxAttempts (RetryStrategy_new (defaultRetryOptions svc))"
  shows "(\<exists>x. fst (prepareAttestationRequest e svc params attestationType sourceId w) =
            Inl (FDCRetryError (rs_maxAttempts (RetryStrategy_new (defaultRetryOptions svc))) (Some x))
          \<and> isInvalidRequest x)
       \<and> verifierPosts (trace (snd (prepareAttestationRequest e svc params attestationType sourceId w))) =
           verifierPosts (trace w) + nat (rs_maxAttempts (RetryStrategy_new (defaultRetryOptions svc)))"
proof -
  let ?rs = "RetryStrategy_new (defaultRetryOptions svc)"
  have K: "\<And>d. \<not> isVerifierPost (Sleep d)" "\<And>a x. \<not> isVerifierPost (OnRetry a x)"
    by (simp_all add: isVerifierPost_def)
  have one: "(1::int) \<le> 1" by simp
  show ?thesis
    unfolding prepareAttestationRequest_def Let_def execute_def verifierPosts_def
    using execute_loop_always_failing[of _ isInvalidRequest isVerifierPost 1 ?rs False,
        OF prepare_operation_invalid prepare_operation_posts_once K one assms(2)] assms(1)
    by simp
qed

theorem invalid_status_is_retried_witness:
  "(\<exists>x. fst (prepareAttestationRequest always_invalid_env (FDCService_new default_fdcConfig no_service_options)
              example_params Web2Json PublicWeb2 world0) = Inl (FDCRetryError 10 (Some x))
        \<and> isInvalidRequest x)
   \<and> verifierPosts (trace (snd (prepareAttestationRequest always_invalid_env
         (FDCService_new default_fdcConfig no_service_options) example_params Web2Json PublicWeb2 world0))) = 10"
  using invalid_status_is_retried [of always_invalid_env "FDCService_new default_fdcConfig no_service_options"
      example_params Web2Json PublicWeb2 world0]
  by (simp add: always_invalid_env_def silent_env_def invalid_response_def rejected_as_invalid_def
      FDCService_new_def default_fdcConfig_def no_service_options_def RetryStrategy_new_def num_or_def
      world0_def verifierPosts_def)

text \<open>
  C1 as stated fails: after an \<open>INVALID\<close> answer the operation is attempted again, and
  the second answer, \<open>VALID\<close>, is returned.
\<close>

theorem invalid_status_counterexample:
  "fst (prepareAttestationRequest invalid_then_valid_env
          (FDCService_new default_fdcConfig no_service_options) example_params Web2Json PublicWeb2 world0)
     = Inr \<lparr> status = ''VALID'', abiEncodedRequest = ''0xdead'' \<rparr>
   \<and> verifierPosts (trace (snd (prepareAttestationRequest invalid_then_valid_env
          (FDCService_new default_fdcConfig no_service_options) example_params Web2Json PublicWeb2 world0))) = 2"
  by (simp add: prepareAttestationRequest_def execute_def RetryStrategy_new_def num_or_def str_or_def
      FDCService_new_def default_fdcConfig_def no_service_options_def example_params_def world0_def
      invalid_then_valid_env_def silent_env_def invalid_response_def valid_response_def
      execute_loop.simps prepare_operation_def emit_def sleep_def isVerifierPost_def verifierPosts_def Let_def)

section \<open>ProofCache: set, get, expiry\<close>

lemma get_all_absent:
  "cache c key = None \<Longrightarrow> get_all key ts c = (replicate (length ts) None, c)"
  by (induction ts) (simp_all add: ProofCache_get_def)

text \<open>
  C6. For every fingerprint \<open>F\<close> and proof record \<open>R\<close>, with a time-to-live that is
  not negative: \<open>set(F, R)\<close> followed by \<open>get(F)\<close> at the same clock reading returns
  \<open>R\<close> and leaves the cache as \<open>set\<close> left it (so does any \<open>get\<close> while the age
  \<open>now - insertedAt\<close> is at most the ttl); once the age exceeds the ttl, \<open>get(F)\<close> returns
  absent and removes the entry, and every later \<open>get(F)\<close>, at whatever clock readings,
  returns absent as well.
\<close>

theorem cache_set_get_expire:
  assumes "0 \<le> ttl c"
  shows "ProofCache_get F t (ProofCache_set F R t c) = (Some R, ProofCache_set F R t c)
       \<and> (t' - t \<le> ttl c \<longrightarrow> fst (ProofCache_get F t' (ProofCache_set F R t c)) = Some R)
       \<and> (t' - t > ttl c \<longrightarrow>
            fst (ProofCache_get F t' (ProofCache_set F R t c)) = None
          \<and> cache (snd (ProofCache_get F t' (ProofCache_set F R t c))) F = None
          \<and> get_all F ts (snd (ProofCache_get F t' (ProofCache_set F R t c))) =
              (replicate (length ts) None, snd (ProofCache_get F t' (ProofCache_set F R t c))))"
proof -
  have a: "ProofCache_get F t (ProofCache_set F R t c) = (Some R, ProofCache_set F R t c)"
    using assms by (simp add: ProofCache_get_def ProofCache_set_def)
  have b: "t' - t \<le> ttl c \<longrightarrow> fst (ProofCache_get F t' (ProofCache_set F R t c)) = Some R"
    by (simp add: ProofCache_get_def ProofCache_set_def)
  have c: "t' - t > ttl c \<longrightarrow>
            fst (ProofCache_get F t' (ProofCache_set F R t c)) = None
          \<and> cache (snd (ProofCache_get F t' (ProofCache_set F R t c))) F = None"
    by (simp add: ProofCache_get_def ProofCache_set_def)
  show ?thesis using a b c get_all_absent by blast
qed

theorem cache_set_get_expire_witness:
  "ProofCache_get ''0xdead:5'' 0 (ProofCache_set ''0xdead:5'' example_proof 0 (ProofCache_new 3600000))
     = (Some example_proof, ProofCache_set ''0xdead:5'' example_proof 0 (ProofCache_new 3600000))
   \<and> fst (ProofCache_get ''0xdead:5'' 3600001
            (ProofCache_set ''0xdead:5'' example_proof 0 (ProofCache_new 3600000))) = None
   \<and> fst (get_all ''0xdead:5'' [3600002, 5]
        (snd (ProofCache_get ''0xdead:5'' 3600001
            (ProofCache_set ''0xdead:5'' example_proof 0 (ProofCache_new 3600000))))) = [None, None]"
  using cache_set_get_expire [of "ProofCache_new 3600000" "''0xdead:5''" 0 example_proof 3600001 "[3600002, 5]"]
  by (simp add: ProofCache_new_def ProofCache_set_def)

section \<open>AttestationRequestBuilder.build\<close>

lemma chain_snoc: "chain (calls @ [c]) = apply_setter (chain calls) c"
  by (simp add: chain_def)

lemma chain_type_default:
  "\<forall>c\<in>set calls. \<not> isType c \<Longrightarrow> b_attestationType (chain calls) = Web2Json"
proof (induction calls rule: rev_induct)
  case Nil
  then show ?case by (simp add: chain_def createAttestationRequest_def)
next
  case (snoc c calls)
  then show ?case
    by (cases c) (simp_all add: chain_snoc isType_def builder_url_def builder_jqFilter_def
        builder_abiSignature_def builder_method_def builder_headers_def builder_queryParams_def
        builder_body_def builder_source_def)
qed

lemma chain_source_default:
  "\<forall>c\<in>set calls. \<not> isSource c \<Longrightarrow> b_sourceId (chain calls) = PublicWeb2"
proof (induction calls rule: rev_induct)
  case Nil
  then show ?case by (simp add: chain_def createAttestationRequest_def)
next
  case (snoc c calls)
  then show ?case
    by (cases c) (simp_all add: chain_snoc isSource_def builder_url_def builder_jqFilter_def
        builder_abiSignature_def builder_method_def builder_headers_def builder_queryParams_def
        builder_body_def builder_type_def)
qed

text \<open>
  C10. \<open>build()\<close> throws exactly when \<open>apiUrl\<close>, \<open>postProcessJq\<close> or \<open>abiSignature\<close> is
  unset or the empty string. On every other builder state it returns the three required
  strings as set, \<open>httpMethod\<close> defaulting to \<open>GET\<close> and \<open>headers\<close>, \<open>queryParams\<close>,
  \<open>body\<close> each defaulting to the string \<open>{}\<close> when not set, and the builder's
  attestation type and source id, which are \<open>Web2Json\<close> and \<open>PublicWeb2\<close> after every
  chain of calls that does not set them.
\<close>

theorem build_throws_or_defaults:
  "(isl (build b) \<longleftrightarrow>
      (b_apiUrl b = None \<or> b_apiUrl b = Some []) \<or>
      (b_postProcessJq b = None \<or> b_postProcessJq b = Some []) \<or>
      (b_abiSignature b = None \<or> b_abiSignature b = Some []))
   \<and> (build b = Inr r \<longrightarrow>
        b_apiUrl b = Some (apiUrl (built_params r))
      \<and> b_postProcessJq b = Some (p_postProcessJq (built_params r))
      \<and> b_abiSignature b = Some (p_abiSignature (built_params r))
      \<and> p_httpMethod (built_params r) = Some (str_or (b_httpMethod b) ''GET'')
      \<and> p_headers (built_params r) = Some (str_or (b_headers b) ''{}'')
      \<and> p_queryParams (built_params r) = Some (str_or (b_queryParams b) ''{}'')
      \<and> p_body (built_params r) = Some (str_or (b_body b) ''{}'')
      \<and> (b_httpMethod b = None \<longrightarrow> p_httpMethod (built_params r) = Some ''GET'')
      \<and> (b_headers b = None \<longrightarrow> p_headers (built_params r) = Some ''{}'')
      \<and> (b_queryParams b = None \<longrightarrow> p_queryParams (built_params r) = Some ''{}'')
      \<and> (b_body b = None \<longrightarrow> p_body (built_params r) = Some ''{}'')
      \<and> built_attestationType r = b_attestationType b
      \<and> built_sourceId r = b_sourceId b)
   \<and> ((\<forall>c\<in>set calls. \<not> isType c) \<longrightarrow> b_attestationType (chain calls) = Web2Json)
   \<and> ((\<forall>c\<in>set calls. \<not> isSource c) \<longrightarrow> b_sourceId (chain calls) = PublicWeb2)"
proof -
  have a: "isl (build b) \<longleftrightarrow>
      (b_apiUrl b = None \<or> b_apiUrl b = Some []) \<or>
      (b_postProcessJq b = None \<or> b_postProcessJq b = Some []) \<or>
      (b_abiSignature b = None \<or> b_abiSignature b = Some [])"
    by (auto simp: build_def falsy_def split: option.splits)
  have b: "build b = Inr r \<longrightarrow>
        b_apiUrl b = Some (apiUrl (built_params r))
      \<and> b_postProcessJq b = Some (p_postProcessJq (built_params r))
      \<and> b_abiSignature b = Some (p_abiSignature (built_params r))
      \<and> p_httpMethod (built_params r) = Some (str_or (b_httpMethod b) ''GET'')
      \<and> p_headers (built_params r) = Some (str_or (b_headers b) ''{}'')
      \<and> p_queryParams (built_params r) = Some (str_or (b_queryParams b) ''{}'')
      \<and> p_body (built_params r) = Some (str_or (b_body b) ''{}'')
      \<and> built_attestationType r = b_attestationType b
      \<and> built_sourceId r = b_sourceId b"
    by (auto simp: build_def falsy_def split: option.splits if_splits)
  have c: "b_httpMethod b = None \<longrightarrow> str_or (b_httpMethod b) ''GET'' = ''GET''"
    "b_headers b = None \<longrightarrow> str_or (b_headers b) ''{}'' = ''{}''"
    "b_queryParams b = None \<longrightarrow> str_or (b_queryParams b) ''{}'' = ''{}''"
    "b_body b = None \<longrightarrow> str_or (b_body b) ''{}'' = ''{}''"
    by (simp_all add: str_or_def)
  show ?thesis using a b c chain_type_default chain_source_default by presburger
qed

theorem build_throws_or_defaults_witness:
  "build (chain [Url ''https://swapi.info/api/people/3'', JqFilter ''{name: .name}'', AbiSignature ''(string name)'']) =
     Inr \<lparr> built_params =
             \<lparr> apiUrl = ''https://swapi.info/api/people/3'',
               p_postProcessJq = ''{name: .name}'',
               p_abiSignature = ''(string name)'',
               p_httpMethod = Some ''GET'', p_headers = Some ''{}'',
               p_queryParams = Some ''{}'', p_body = Some ''{}'' \<rparr>,
           built_attestationType = Web2Json,
           built_sourceId = PublicWeb2 \<rparr>
   \<and> isl (build (chain [Url [], JqFilter ''{name: .name}'', AbiSignature ''(string name)'']))"
  using build_throws_or_defaults
    [of "chain [Url ''https://swapi.info/api/people/3'', JqFilter ''{name: .name}'', AbiSignature ''(string name)'']"
        "projr (build (chain [Url ''https://swapi.info/api/people/3'', JqFilter ''{name: .name}'', AbiSignature ''(string name)'']))"
        "[Url ''https://swapi.info/api/people/3'', JqFilter ''{name: .name}'', AbiSignature ''(string name)'']"]
  by (simp add: chain_def createAttestationRequest_def builder_url_def builder_jqFilter_def
      builder_abiSignature_def build_def falsy_def str_or_def isType_def isSource_def)

section \<open>waitForRoundFinalization: the poll intervals\<close>

lemma sleeps_append: "sleeps (xs @ ys) = sleeps xs @ sleeps ys"
  by (induction xs rule: sleeps.induct) simp_all

lemma grow_ge: "0 \<le> c \<Longrightarrow> c \<le> grow c"
  by (simp add: grow_def min_def)

lemma grow_le: "c \<le> 60000 \<Longrightarrow> grow c \<le> 60000"
  by (simp add: grow_def)

text \<open>one iteration of the loop that neither returns nor throws\<close>
lemma wait_loop_step:
  assumes "isFinalized e w p r = Inr False"
    and "overdue (maxWaitTimeMs po) (now (awaited e w) - st) = None"
  shows "wait_loop (Suc n) e po p r st ci cc w =
     wait_loop n e po p r st (if 5 \<le> cc then grow ci else ci) (Suc cc)
       (sleep (if 5 \<le> cc then grow ci else ci)
          (if onProgress po then emit (Progress (WaitingForRound r (now (awaited e w) - st))) (emit (IsFinalized p r) (awaited e w))
           else emit (IsFinalized p r) (awaited e w)))"
  using assms by (simp add: Let_def grow_def)

lemma wait_loop_stops:
  assumes "isFinalized e w p r \<noteq> Inr False \<or> overdue (maxWaitTimeMs po) (now (awaited e w) - st) \<noteq> None"
  shows "\<exists>res evs. wait_loop (Suc n) e po p r st ci cc w = (Some res, (awaited e w)\<lparr>trace := trace w @ evs\<rparr>) \<and> sleeps evs = []"
proof (cases "isFinalized e w p r")
  case (Inl t)
  then show ?thesis by (auto simp: emit_def intro!: exI[of _ "[IsFinalized p r]"])
next
  case (Inr b)
  show ?thesis
  proof (cases b)
    case True
    then show ?thesis using Inr
      by (cases "onProgress po")
         (auto simp: emit_def intro: exI[of _ "[IsFinalized p r, Progress (RoundFinalized r)]"]
            exI[of _ "[IsFinalized p r]"])
  next
    case False
    then obtain T where "overdue (maxWaitTimeMs po) (now (awaited e w) - st) = Some T" using assms Inr by auto
    then show ?thesis using Inr False
      by (auto simp: emit_def Let_def intro!: exI[of _ "[IsFinalized p r]"])
  qed
qed

lemma wait_loop_intervals:
  "\<exists>evs. trace (snd (wait_loop n e po p r st ci cc w)) = trace w @ evs
     \<and> (0 \<le> ci \<longrightarrow> sorted (sleeps evs) \<and> (\<forall>d\<in>set (sleeps evs). ci \<le> d))
     \<and> (ci \<le> 60000 \<longrightarrow> (\<forall>d\<in>set (sleeps evs). d \<le> 60000))
     \<and> sleeps evs = map (\<lambda>i. (grow ^^ (Suc (cc + i) - max cc 5)) ci) [0..<length (sleeps evs)]"
proof (induction n arbitrary: ci cc w)
  case 0
  show ?case by (rule exI[of _ "[]"]) simp
next
  case (Suc n)
  show ?case
  proof (cases "isFinalized e w p r = Inr False \<and> overdue (maxWaitTimeMs po) (now (awaited e w) - st) = None")
    case False
    then obtain res evs where
      "wait_loop (Suc n) e po p r st ci cc w = (Some res, (awaited e w)\<lparr>trace := trace w @ evs\<rparr>)" "sleeps evs = []"
      using wait_loop_stops[of e w p r po st n ci cc] by blast
    then show ?thesis by (intro exI[of _ evs]) simp
  next
    case True
    let ?ci = "if 5 \<le> cc then grow ci else ci"
    let ?w = "sleep ?ci
          (if onProgress po then emit (Progress (WaitingForRound r (now (awaited e w) - st))) (emit (IsFinalized p r) (awaited e w))
           else emit (IsFinalized p r) (awaited e w))"
    have step: "wait_loop (Suc n) e po p r st ci cc w = wait_loop n e po p r st ?ci (Suc cc) ?w"
      using True by (intro wait_loop_step) simp_all
    obtain mid where mid: "trace ?w = trace w @ mid" "sleeps mid = [?ci]"
      by (cases "onProgress po") simp_all
    from Suc.IH[of ?ci "Suc cc" ?w] obtain evs where
      tr: "trace (snd (wait_loop n e po p r st ?ci (Suc cc) ?w)) = trace ?w @ evs"
      and so: "0 \<le> ?ci \<longrightarrow> sorted (sleeps evs) \<and> (\<forall>d\<in>set (sleeps evs). ?ci \<le> d)"
      and bd: "?ci \<le> 60000 \<longrightarrow> (\<forall>d\<in>set (sleeps evs). d \<le> 60000)"
      and fm: "sleeps evs = map (\<lambda>i. (grow ^^ (Suc (Suc cc + i) - max (Suc cc) 5)) ?ci) [0..<length (sleeps evs)]"
      by blast
    have sl: "sleeps (mid @ evs) = ?ci # sleeps evs" using mid by (simp add: sleeps_append)
    have a: "trace (snd (wait_loop (Suc n) e po p r st ci cc w)) = trace w @ (mid @ evs)"
      unfolding step using tr mid by simp
    have b: "0 \<le> ci \<longrightarrow> sorted (sleeps (mid @ evs)) \<and> (\<forall>d\<in>set (sleeps (mid @ evs)). ci \<le> d)"
    proof
      assume ci: "0 \<le> ci"
      then have ge: "ci \<le> ?ci" using grow_ge[of ci] by simp
      then have "0 \<le> ?ci" using ci by linarith
      then have "sorted (sleeps evs)" "\<forall>d\<in>set (sleeps evs). ?ci \<le> d" using so by blast+
      then show "sorted (sleeps (mid @ evs)) \<and> (\<forall>d\<in>set (sleeps (mid @ evs)). ci \<le> d)"
        unfolding sl using ge by auto
    qed
    have c: "ci \<le> 60000 \<longrightarrow> (\<forall>d\<in>set (sleeps (mid @ evs)). d \<le> 60000)"
    proof
      assume ci: "ci \<le> 60000"
      then have le: "?ci \<le> 60000" using grow_le[of ci] by simp
      then have "\<forall>d\<in>set (sleeps evs). d \<le> 60000" using bd by blast
      then show "\<forall>d\<in>set (sleeps (mid @ evs)). d \<le> 60000" unfolding sl using le by simp
    qed
    have h: "?ci = (grow ^^ (Suc cc - max cc 5)) ci" by (simp add: max_def Suc_diff_le)
    have t: "\<And>i. (grow ^^ (Suc (Suc cc + i) - max (Suc cc) 5)) ?ci = (grow ^^ (Suc (cc + Suc i) - max cc 5)) ci"
    proof -
      fix i
      show "(grow ^^ (Suc (Suc cc + i) - max (Suc cc) 5)) ?ci = (grow ^^ (Suc (cc + Suc i) - max cc 5)) ci"
      proof (cases "5 \<le> cc")
        case True
        then have "Suc (Suc cc + i) - max (Suc cc) 5 = Suc i" "Suc (cc + Suc i) - max cc 5 = Suc (Suc i)"
          by (simp_all add: max_def)
        then show ?thesis using True by (simp add: funpow_swap1)
      next
        case False
        then have "max (Suc cc) 5 = 5" "max cc 5 = 5" by (simp_all add: max_def)
        then show ?thesis using False by simp
      qed
    qed
    define G where "G = (\<lambda>i. (grow ^^ (Suc (cc + i) - max cc 5)) ci)"
    have G0: "G 0 = ?ci" using h by (simp add: G_def)
    have GS: "\<And>i. (grow ^^ (Suc (Suc cc + i) - max (Suc cc) 5)) ?ci = G (Suc i)"
      unfolding G_def by (rule t)
    have fm': "sleeps evs = map (\<lambda>i. G (Suc i)) [0..<length (sleeps evs)]"
      using fm unfolding GS .
    have "map G [0..<Suc (length (sleeps evs))] = G 0 # map (\<lambda>i. G (Suc i)) [0..<length (sleeps evs)]"
      by (rule map_upt_Suc)
    also have "\<dots> = ?ci # sleeps evs" using G0 fm'[symmetric] by (simp only:)
    finally have "sleeps (mid @ evs) = map G [0..<length (sleeps (mid @ evs))]"
      unfolding sl by (simp only: length_Cons)
    then have d: "sleeps (mid @ evs) = map (\<lambda>i. (grow ^^ (Suc (cc + i) - max cc 5)) ci) [0..<length (sleeps (mid @ evs))]"
      unfolding G_def .
    show ?thesis using a b c d by blast
  qed
qed

lemma grow_fixed: "60000 \<le> c \<Longrightarrow> (grow ^^ k) c = c"
  by (induction k) (simp_all add: grow_def)

lemma take5_intervals:
  "take 5 (map (interval_at c0) [0..<L]) = replicate (min 5 L) c0"
proof -
  have "take 5 (map (interval_at c0) [0..<L]) = map (interval_at c0) [0..<min 5 L]"
    by (simp add: take_map min_def)
  also have "\<dots> = map (\<lambda>i. c0) [0..<min 5 L]"
    by (rule map_cong) (auto simp: interval_at_def)
  also have "\<dots> = replicate (min 5 L) c0"
    by (simp add: map_replicate_const)
  finally show ?thesis .
qed

text \<open>
  C7 (as the code has it). In \<open>waitForRoundFinalization\<close>, for every run of the loop
  (any oracle, any number of iterations followed) that starts with the interval \<open>c0\<close>
  (\<open>checkIntervalMs\<close>, or 30000 when that is absent or zero): when \<open>c0\<close> is not negative
  the successive poll intervals are non-decreasing; when \<open>c0\<close> is at most 60000 they never
  exceed the 60-second cap; an interval configured above the cap is neither grown nor
  capped, every sleep uses it unchanged. The first five sleeps use \<open>c0\<close>: the factor 1.5
  is applied from the sixth consecutive non-finalized check on, as \<open>interval_at\<close> spells
  out.
\<close>

theorem poll_intervals_grow_to_cap:
  assumes "trace w = []"
    and "c0 = num_or (checkIntervalMs (spread (defaultPollingOptions svc) options)) 30000"
    and "ivs = sleeps (trace (snd (waitForRoundFinalization n e svc rid options w)))"
  shows "(0 \<le> c0 \<longrightarrow> sorted ivs)
       \<and> (c0 \<le> 60000 \<longrightarrow> (\<forall>d\<in>set ivs. d \<le> 60000))
       \<and> (60000 \<le> c0 \<longrightarrow> (\<forall>d\<in>set ivs. d = c0))
       \<and> take 5 ivs = replicate (min 5 (length ivs)) c0
       \<and> ivs = map (interval_at c0) [0..<length ivs]"
proof -
  let ?po = "spread (defaultPollingOptions svc) options"
  have core: "(0 \<le> c0 \<longrightarrow> sorted ivs) \<and> (c0 \<le> 60000 \<longrightarrow> (\<forall>d\<in>set ivs. d \<le> 60000))
      \<and> ivs = map (interval_at c0) [0..<length ivs]"
  proof (cases "fdcProtocolId e w")
    case (Inl t)
    then show ?thesis using assms by (simp add: waitForRoundFinalization_def)
  next
    case (Inr p)
    then have run: "waitForRoundFinalization n e svc rid options w = wait_loop n e ?po p rid (now w) c0 0 w"
      using assms(2) by (simp add: waitForRoundFinalization_def Let_def)
    have ia: "(\<lambda>i. (grow ^^ (Suc (0 + i) - max 0 5)) c0) = interval_at c0"
      by (simp add: interval_at_def fun_eq_iff)
    from wait_loop_intervals[of n e ?po p rid "now w" c0 0 w, unfolded ia] obtain evs where
      "trace (snd (wait_loop n e ?po p rid (now w) c0 0 w)) = trace w @ evs"
      "0 \<le> c0 \<longrightarrow> sorted (sleeps evs) \<and> (\<forall>d\<in>set (sleeps evs). c0 \<le> d)"
      "c0 \<le> 60000 \<longrightarrow> (\<forall>d\<in>set (sleeps evs). d \<le> 60000)"
      "sleeps evs = map (interval_at c0) [0..<length (sleeps evs)]"
      by blast
    moreover have "ivs = sleeps evs" using assms(1,3) calculation(1) run by simp
    ultimately show ?thesis by blast
  qed
  then have f: "ivs = map (interval_at c0) [0..<length ivs]" by blast
  have t5: "take 5 ivs = replicate (min 5 (length ivs)) c0"
    by (subst f, subst take5_intervals) simp
  have fx: "60000 \<le> c0 \<longrightarrow> (\<forall>d\<in>set ivs. d = c0)"
  proof
    assume "60000 \<le> c0"
    then have "\<And>i. interval_at c0 i = c0" by (simp add: interval_at_def grow_fixed)
    then have "map (interval_at c0) [0..<length ivs] = map (\<lambda>i. c0) [0..<length ivs]" by simp
    then have "set ivs \<subseteq> {c0}" using f by (metis list.set_map image_subset_iff singletonI)
    then show "\<forall>d\<in>set ivs. d = c0" by blast
  qed
  show ?thesis using core t5 fx by blast
qed

text \<open>The default configuration against an oracle that never finalizes, until the timeout.\<close>

theorem poll_intervals_grow_to_cap_witness:
  "sleeps (trace (snd (waitForRoundFinalization 9 never_finalized_env
          (FDCService_new default_fdcConfig no_service_options) 5 no_options world0)))
     = [30000, 30000, 30000, 30000, 30000, 45000, 60000, 60000]
   \<and> sorted [30000, 30000, 30000, 30000, 30000, 45000, 60000, 60000 :: rat]
   \<and> take 5 [30000, 30000, 30000, 30000, 30000, 45000, 60000, 60000 :: rat] = replicate 5 30000"
proof -
  let ?svc = "FDCService_new default_fdcConfig no_service_options"
  have ev: "[30000, 30000, 30000, 30000, 30000, 45000, 60000, 60000] =
      sleeps (trace (snd (waitForRoundFinalization 9 never_finalized_env ?svc 5 no_options world0)))"
    by code_simp
  have tr: "trace world0 = []" by (simp add: world0_def)
  have c0: "30000 = num_or (checkIntervalMs (spread (defaultPollingOptions ?svc) no_options)) 30000"
    by (simp add: FDCService_new_def default_fdcConfig_def no_service_options_def no_options_def
        spread_def override_def checkIntervalMs_def num_or_def)
  from poll_intervals_grow_to_cap[OF tr c0 ev]
  have s: "0 \<le> (30000::rat) \<longrightarrow> sorted [30000, 30000, 30000, 30000, 30000, 45000, 60000, 60000 :: rat]"
    and t: "take 5 [30000, 30000, 30000, 30000, 30000, 45000, 60000, 60000 :: rat] =
      replicate (min 5 (length [30000, 30000, 30000, 30000, 30000, 45000, 60000, 60000 :: rat])) 30000"
    by blast+
  have m: "min 5 (length [30000, 30000, 30000, 30000, 30000, 45000, 60000, 60000 :: rat]) = 5"
    by simp
  show ?thesis using ev s t[unfolded m] by simp
qed

text \<open>
  C7 as stated (for every initial \<open>checkIntervalMs\<close>) fails: an initial interval of
  120000 ms is slept as it is, above the cap, and a negative one shrinks.
\<close>

theorem poll_intervals_counterexample:
  "sleeps (trace (snd (waitForRoundFinalization 2 never_finalized_env
          (FDCService_new default_fdcConfig no_service_options) 5 (interval_options 120000) world0)))
     = [120000, 120000]
   \<and> (60000 :: rat) < 120000
   \<and> sleeps (trace (snd (waitForRoundFinalization 7 never_finalized_env
          (FDCService_new default_fdcConfig no_service_options) 5 (interval_options (- 100)) world0)))
     = [- 100, - 100, - 100, - 100, - 100, - 150, - 225]
   \<and> \<not> sorted [- 100, - 100, - 100, - 100, - 100, - 150, - 225 :: rat]"
  by code_simp

section \<open>The polling loops: termination\<close>

text \<open>the response says "not yet available"\<close>
lemma proof_loop_step:
  assumes "daLayer e w r a = Response ok st stText json"
    and "\<not> ok \<or> (\<exists>d. json = Inr d \<and> response_hex d = [])"
    and "overdue (maxWaitTimeMs po) (now (awaited e w) - st0) = None"
  shows "proof_loop (Suc n) e po iv r a st0 w =
     proof_loop n e po iv r a st0
       (sleep iv (if onProgress po
                  then emit (Progress (WaitingForProof (now (awaited e w) - st0))) (emit (ProofPost r a) (awaited e w))
                  else emit (ProofPost r a) (awaited e w)))"
  using assms by (auto simp: Let_def)

lemma spread_idem [simp]: "spread d (spread d o') = spread d o'"
  by (simp add: spread_def override_def split: property.splits)


























section \<open>executeAttestationWorkflow: the ledger submission\<close>

lemma submissions_append: "submissions (xs @ ys) = submissions xs + submissions ys"
  by (simp add: submissions_def)

lemma submissions_none: "\<forall>x\<in>set evs. \<not> isRequestAttestation x \<Longrightarrow> submissions evs = 0"
  by (simp add: submissions_def)

lemma submissions_emit:
  "submissions (trace (emit x w)) = submissions (trace w) + (if isRequestAttestation x then 1 else 0)"
  by (simp add: submissions_def)

lemma submissions_sleep: "submissions (trace (sleep d w)) = submissions (trace w)"
  by (simp add: submissions_def isRequestAttestation_def)

lemma prepare_operation_appends:
  "\<exists>evs. trace (snd (prepare_operation e req w)) = trace w @ evs \<and>
      (\<forall>x\<in>set evs. \<not> isRequestAttestation x)"
proof -
  have "trace (snd (prepare_operation e req w)) = trace w @ [VerifierPost req]"
    by (simp add: prepare_operation_def Let_def split: response.splits sum.splits)
  moreover have "\<forall>x\<in>set [VerifierPost req]. \<not> isRequestAttestation x"
    by (simp add: isRequestAttestation_def)
  ultimately show ?thesis by blast
qed

lemma prepare_no_submission:
  "submissions (trace (snd (prepareAttestationRequest e svc params attestationType sourceId w))) =
     submissions (trace w)"
proof -
  have Q: "\<And>d. \<not> isRequestAttestation (Sleep d)" "\<And>a x. \<not> isRequestAttestation (OnRetry a x)"
    by (simp_all add: isRequestAttestation_def)
  have "\<exists>evs. trace (snd (prepareAttestationRequest e svc params attestationType sourceId w)) = trace w @ evs
      \<and> (\<forall>x\<in>set evs. \<not> isRequestAttestation x)"
    unfolding prepareAttestationRequest_def Let_def execute_def
    by (rule execute_loop_appends[of "\<lambda>x. \<not> isRequestAttestation x", OF Q])
       (simp add: prepare_operation_appends)
  then obtain evs where
    "trace (snd (prepareAttestationRequest e svc params attestationType sourceId w)) = trace w @ evs"
    "\<forall>x\<in>set evs. \<not> isRequestAttestation x" by blast
  then show ?thesis by (simp add: submissions_append submissions_none)
qed

lemma submit_submissions:
  "submissions (trace (snd (submitAttestationRequest e abi w))) =
     submissions (trace w) + (if isl (getRequestFee e w abi) then 0 else 1)"
  by (simp add: submitAttestationRequest_def Let_def submissions_def isRequestAttestation_def
      split: sum.splits)

lemma wait_loop_no_submission:
  "submissions (trace (snd (wait_loop n e po p r st ci cc w))) = submissions (trace w)"
proof (induction n arbitrary: ci cc w)
  case 0
  show ?case by simp
next
  case (Suc n)
  show ?case
  proof (cases "isFinalized e w p r = Inr False \<and> overdue (maxWaitTimeMs po) (now (awaited e w) - st) = None")
    case True
    then have a: "isFinalized e w p r = Inr False" "overdue (maxWaitTimeMs po) (now (awaited e w) - st) = None" by simp_all
    show ?thesis unfolding wait_loop_step[OF a] Suc.IH
      by (simp add: submissions_def isRequestAttestation_def)
  next
    case False
    then show ?thesis
      by (auto simp: Let_def submissions_def isRequestAttestation_def
          split: sum.splits bool.splits option.splits)
  qed
qed

lemma wait_no_submission:
  "submissions (trace (snd (waitForRoundFinalization n e svc rid options w))) = submissions (trace w)"
  by (simp add: waitForRoundFinalization_def Let_def wait_loop_no_submission split: sum.splits)

lemma proof_loop_submissions:
  "\<exists>w'. submissions (trace w') = submissions (trace w) \<and>
     (proof_loop (Suc n) e po iv r a st0 w = proof_loop n e po iv r a st0 w'
      \<or> snd (proof_loop (Suc n) e po iv r a st0 w) = w')"
proof (cases "\<exists>ok st stText json. daLayer e w r a = Response ok st stText json
      \<and> (\<not> ok \<or> (\<exists>d. json = Inr d \<and> response_hex d = []))
      \<and> overdue (maxWaitTimeMs po) (now (awaited e w) - st0) = None")
  case True
  then obtain ok st stText json where a: "daLayer e w r a = Response ok st stText json"
    "\<not> ok \<or> (\<exists>d. json = Inr d \<and> response_hex d = [])"
    "overdue (maxWaitTimeMs po) (now (awaited e w) - st0) = None" by blast
  show ?thesis unfolding proof_loop_step[OF a]
    by (intro exI[of _ "sleep iv (if onProgress po then emit (Progress (WaitingForProof (now (awaited e w) - st0))) (emit (ProofPost r a) (awaited e w))
                  else emit (ProofPost r a) (awaited e w))"])
       (simp add: submissions_def isRequestAttestation_def)
next
  case False
  have "snd (proof_loop (Suc n) e po iv r a st0 w) = emit (ProofPost r a) (awaited e w)"
  proof (cases "daLayer e w r a")
    case (Rejected t)
    then show ?thesis by simp
  next
    case (Response ok st stText json)
    show ?thesis
    proof (cases ok)
      case f: False
      then obtain T where "overdue (maxWaitTimeMs po) (now (awaited e w) - st0) = Some T"
        using False Response by auto
      then show ?thesis using Response f by (simp add: Let_def)
    next
      case t: True
      show ?thesis
      proof (cases json)
        case (Inl x)
        then show ?thesis using Response t by simp
      next
        case (Inr d)
        show ?thesis
        proof (cases "response_hex d = []")
          case True
          then obtain T where "overdue (maxWaitTimeMs po) (now (awaited e w) - st0) = Some T"
            using False Response Inr by auto
          then show ?thesis using Response t Inr True by (simp add: Let_def)
        next
          case False
          then show ?thesis using Response t Inr by simp
        qed
      qed
    qed
  qed
  then show ?thesis
    by (intro exI[of _ "emit (ProofPost r a) (awaited e w)"]) (simp add: submissions_def isRequestAttestation_def)
qed

lemma proof_loop_no_submission:
  "submissions (trace (snd (proof_loop n e po iv r a st0 w))) = submissions (trace w)"
proof (induction n arbitrary: w)
  case 0
  show ?case by simp
next
  case (Suc n)
  from proof_loop_submissions[of w n e po iv r a st0] obtain w' where
    w': "submissions (trace w') = submissions (trace w)"
    "proof_loop (Suc n) e po iv r a st0 w = proof_loop n e po iv r a st0 w'
      \<or> snd (proof_loop (Suc n) e po iv r a st0 w) = w'" by blast
  from w'(2) show ?case
  proof
    assume "proof_loop (Suc n) e po iv r a st0 w = proof_loop n e po iv r a st0 w'"
    then show ?thesis using Suc.IH[of w'] w'(1) by simp
  next
    assume "snd (proof_loop (Suc n) e po iv r a st0 w) = w'"
    then show ?thesis using w'(1) by simp
  qed
qed

lemma retrieveProof_no_submission:
  "submissions (trace (snd (snd (retrieveProof n e svc abi rid options w)))) = submissions (trace w)"
proof -
  let ?po = "spread (defaultPollingOptions svc) options"
  let ?iv = "num_or (checkIntervalMs ?po) (proofGenerationCheckIntervalMs (fdcConfig svc))"
  obtain cached svc1 where cs:
    "(case proofCache svc of
               None \<Rightarrow> (None, svc)
             | Some c \<Rightarrow>
                 (let (r, c') = ProofCache_get (generateKey abi rid) (now w) c
                  in (r, svc\<lparr>proofCache := Some c'\<rparr>))) = (cached, svc1)"
    by (cases "(case proofCache svc of
               None \<Rightarrow> (None, svc)
             | Some c \<Rightarrow>
                 (let (r, c') = ProofCache_get (generateKey abi rid) (now w) c
                  in (r, svc\<lparr>proofCache := Some c'\<rparr>)))") auto
  then have same: "defaultPollingOptions svc1 = defaultPollingOptions svc" "fdcConfig svc1 = fdcConfig svc"
    by (auto split: option.splits prod.splits)
  show ?thesis
  proof (cases cached)
    case (Some d)
    then show ?thesis using cs by (simp add: retrieveProof_def)
  next
    case None
    obtain r1 w1 where w1: "waitForRoundFinalization n e svc1 rid ?po w = (r1, w1)"
      by (cases "waitForRoundFinalization n e svc1 rid ?po w")
    have s1: "submissions (trace w1) = submissions (trace w)"
      using wait_no_submission[of n e svc1 rid ?po w] w1 by simp
    let ?w2 = "sleep 10000 w1"
    obtain r3 w3 where w3: "proof_loop n e ?po ?iv rid abi (now ?w2) ?w2 = (r3, w3)"
      by (cases "proof_loop n e ?po ?iv rid abi (now ?w2) ?w2")
    have s3: "submissions (trace w3) = submissions (trace w)"
      using proof_loop_no_submission[of n e ?po ?iv rid abi "now ?w2" ?w2] w3 s1
      by (simp add: submissions_sleep del: trace_sleep)
    show ?thesis
    proof (cases r1)
      case N: None
      then show ?thesis using cs None w1 s1 by (simp add: retrieveProof_def same Let_def)
    next
      case (Some x)
      show ?thesis
      proof (cases x)
        case (Inl t)
        then show ?thesis using cs None w1 Some s1 by (simp add: retrieveProof_def same Let_def)
      next
        case (Inr u)
        show ?thesis
        proof (cases r3)
          case N3: None
          then show ?thesis using cs None w1 Some Inr w3 s3
            by (simp add: retrieveProof_def same Let_def)
        next
          case S3: (Some y)
          then show ?thesis using cs None w1 Some Inr w3 s3
            by (cases y) (simp_all add: retrieveProof_def same Let_def)
        qed
      qed
    qed
  qed
qed

text \<open>
  C9. In \<open>executeAttestationWorkflow\<close> the ledger submission is made once and is not
  retried. For every execution, followed for any number of polling iterations: the trace
  gains at most one \<open>requestAttestation\<close> transaction; none when preparation fails; when
  preparation succeeds, exactly one unless the steps before the transaction (the fee
  query) throw; and when \<open>submitAttestationRequest\<close> fails, the workflow ends with that
  very error, in the world the single submission left.
\<close>

theorem ledger_submission_not_retried:
  "submissions (trace (snd (snd (executeAttestationWorkflow n e svc params attestationType sourceId po w))))
     \<le> submissions (trace w) + 1
   \<and> (isl (fst (prepareAttestationRequest e svc params attestationType sourceId w)) \<longrightarrow>
        submissions (trace (snd (snd (executeAttestationWorkflow n e svc params attestationType sourceId po w))))
          = submissions (trace w))
   \<and> (prepareAttestationRequest e svc params attestationType sourceId w = (Inr prepared, w1) \<longrightarrow>
        submissions (trace (snd (snd (executeAttestationWorkflow n e svc params attestationType sourceId po w))))
          = submissions (trace w) + (if isl (getRequestFee e w1 (abiEncodedRequest prepared)) then 0 else 1)
      \<and> (submitAttestationRequest e (abiEncodedRequest prepared) w1 = (Inl t, w2) \<longrightarrow>
           executeAttestationWorkflow n e svc params attestationType sourceId po w = (Some (Inl t), svc, w2)))"
proof -
  let ?WF = "executeAttestationWorkflow n e svc params attestationType sourceId po w"
  obtain r0 w0 where p: "prepareAttestationRequest e svc params attestationType sourceId w = (r0, w0)"
    by (cases "prepareAttestationRequest e svc params attestationType sourceId w")
  have s0: "submissions (trace w0) = submissions (trace w)"
    using prepare_no_submission[of e svc params attestationType sourceId w] p by simp
  show ?thesis
  proof (cases r0)
    case (Inl err)
    then have "?WF = (Some (Inl (ErrorObj err)), svc, w0)" using p
      by (simp add: executeAttestationWorkflow_def)
    then show ?thesis using p Inl s0 by simp
  next
    case (Inr prep)
    let ?abi = "abiEncodedRequest prep"
    obtain r2 w2' where s: "submitAttestationRequest e ?abi w0 = (r2, w2')"
      by (cases "submitAttestationRequest e ?abi w0")
    have s2: "submissions (trace w2') =
        submissions (trace w) + (if isl (getRequestFee e w0 ?abi) then 0 else 1)"
      using submit_submissions[of e ?abi w0] s s0 by simp
    have fin: "submissions (trace (snd (snd ?WF))) = submissions (trace w2')
        \<and> (\<forall>t. r2 = Inl t \<longrightarrow> ?WF = (Some (Inl t), svc, w2'))"
    proof (cases r2)
      case (Inl t)
      then show ?thesis using p Inr s by (simp add: executeAttestationWorkflow_def)
    next
      case R: (Inr roundInfo)
      let ?RP = "retrieveProof n e svc ?abi (roundId roundInfo)
                       (case po of None \<Rightarrow> no_options | Some po \<Rightarrow> po) w2'"
      obtain r3 svc3 w3 where rp: "?RP = (r3, svc3, w3)" by (cases ?RP)
      have "submissions (trace w3) = submissions (trace w2')"
        using retrieveProof_no_submission[of n e svc ?abi "roundId roundInfo"
            "case po of None \<Rightarrow> no_options | Some po \<Rightarrow> po" w2'] rp by simp
      then show ?thesis using p Inr s R rp
        by (simp add: executeAttestationWorkflow_def split: option.splits sum.splits)
    qed
    show ?thesis using p Inr s s2 fin by auto
  qed
qed

text \<open>A hub that rejects the transaction: one submission, and its error is the result.\<close>

theorem ledger_submission_not_retried_witness:
  "fst (executeAttestationWorkflow 3 failing_hub_env (FDCService_new default_fdcConfig no_service_options)
          example_params Web2Json PublicWeb2 None world0)
     = Some (Inl (ErrorObj (Error ''insufficient funds'')))
   \<and> submissions (trace (snd (snd (executeAttestationWorkflow 3 failing_hub_env
          (FDCService_new default_fdcConfig no_service_options)
          example_params Web2Json PublicWeb2 None world0)))) = 1"
proof -
  let ?svc = "FDCService_new default_fdcConfig no_service_options"
  let ?w1 = "\<lparr> now = 0, trace = [VerifierPost
      \<lparr> r_attestationType = Web2Json, r_sourceId = PublicWeb2,
        requestBody = \<lparr> url = ''https://swapi.info/api/people/3'', httpMethod = ''GET'',
          headers = ''{}'', queryParams = ''{}'', body = ''{}'',
          postProcessJq = ''{name: .name}'', abiSignature = ''(string name)'' \<rparr> \<rparr>] \<rparr>"
  let ?prepared = "\<lparr> status = ''VALID'', abiEncodedRequest = ''0xdead'' \<rparr>"
  have p: "prepareAttestationRequest failing_hub_env ?svc example_params Web2Json PublicWeb2 world0
      = (Inr ?prepared, ?w1)"
    by (simp add: prepareAttestationRequest_def execute_def RetryStrategy_new_def num_or_def str_or_def
      FDCService_new_def default_fdcConfig_def no_service_options_def example_params_def world0_def
      failing_hub_env_def always_valid_env_def silent_env_def valid_response_def
      execute_loop.simps prepare_operation_def emit_def Let_def)
  have s: "submitAttestationRequest failing_hub_env (abiEncodedRequest ?prepared) ?w1
      = (Inl (ErrorObj (Error ''insufficient funds'')), emit (RequestAttestation ''0xdead'' 1) ?w1)"
    by (simp add: submitAttestationRequest_def failing_hub_env_def always_valid_env_def silent_env_def Let_def)
  note T = ledger_submission_not_retried[of 3 failing_hub_env ?svc example_params Web2Json PublicWeb2 None world0
      ?prepared ?w1 "ErrorObj (Error ''insufficient funds'')" "emit (RequestAttestation ''0xdead'' 1) ?w1"]
  from T p have "submitAttestationRequest failing_hub_env (abiEncodedRequest ?prepared) ?w1
      = (Inl (ErrorObj (Error ''insufficient funds'')), emit (RequestAttestation ''0xdead'' 1) ?w1) \<longrightarrow>
    executeAttestationWorkflow 3 failing_hub_env ?svc example_params Web2Json PublicWeb2 None world0
      = (Some (Inl (ErrorObj (Error ''insufficient funds''))), ?svc, emit (RequestAttestation ''0xdead'' 1) ?w1)"
    by blast
  with s have wf: "executeAttestationWorkflow 3 failing_hub_env ?svc example_params Web2Json PublicWeb2 None world0
      = (Some (Inl (ErrorObj (Error ''insufficient funds''))), ?svc, emit (RequestAttestation ''0xdead'' 1) ?w1)"
    by blast
  show ?thesis unfolding wf by (simp add: submissions_def isRequestAttestation_def emit_def)
qed

section \<open>Validation before the network\<close>

text \<open>
  C8 (as the code has it). Request parameters are validated by
  \<open>AttestationRequestBuilder.build()\<close>, before any network call: for every input whose
  \<open>apiUrl\<close>, \<open>postProcessJq\<close> or \<open>abiSignature\<close> is empty, a workflow started through the
  builder (\<open>executeWeatherAttestation\<close>) fails with the \<open>Error\<close> that \<open>build()\<close> throws,
  and the world is untouched: no request is issued.
\<close>

theorem builder_validates_before_any_request:
  assumes "apiUrl' = [] \<or> jqFilter = [] \<or> abiSignature' = []"
  shows "isl (createWeatherAttestationRequest apiUrl' jqFilter abiSignature')
       \<and> (\<exists>msg. executeWeatherAttestation n e svc apiUrl' jqFilter abiSignature' po w =
                   (Some (Inl (ErrorObj (Error msg))), svc, w))"
  using assms
  by (auto simp: executeWeatherAttestation_def createWeatherAttestationRequest_def build_def falsy_def
      builder_source_def builder_type_def builder_abiSignature_def builder_jqFilter_def builder_url_def
      createAttestationRequest_def)

theorem builder_validates_before_any_request_witness:
  "executeWeatherAttestation 3 always_valid_env (FDCService_new default_fdcConfig no_service_options)
     [] ''{name: .name}'' ''(string name)'' None world0
   = (Some (Inl (ErrorObj (Error ''API URL is required''))),
      FDCService_new default_fdcConfig no_service_options, world0)"
proof -
  have a: "([]::string) = [] \<or> ''{name: .name}'' = [] \<or> ''(string name)'' = []" by simp
  from builder_validates_before_any_request[OF a, of 3 always_valid_env
      "FDCService_new default_fdcConfig no_service_options" None world0]
  obtain msg where m: "executeWeatherAttestation 3 always_valid_env
      (FDCService_new default_fdcConfig no_service_options) [] ''{name: .name}'' ''(string name)'' None world0
      = (Some (Inl (ErrorObj (Error msg))), FDCService_new default_fdcConfig no_service_options, world0)"
    by blast
  moreover have "createWeatherAttestationRequest [] ''{name: .name}'' ''(string name)'' =
      Inl (Error ''API URL is required'')"
    by (simp add: createWeatherAttestationRequest_def build_def falsy_def
      builder_source_def builder_type_def builder_abiSignature_def builder_jqFilter_def builder_url_def
      createAttestationRequest_def)
  ultimately have "msg = ''API URL is required''"
    by (simp add: executeWeatherAttestation_def)
  then show ?thesis using m by simp
qed

text \<open>
  C8 as stated fails for parameters handed to the service directly:
  \<open>executeAttestationWorkflow\<close> does not validate, and the request with the empty URL is
  POSTed to the preparer.
\<close>

theorem service_does_not_validate_counterexample:
  "snd (snd (executeAttestationWorkflow 3 always_valid_env
       (FDCService_new default_fdcConfig no_service_options)
       (example_params\<lparr>apiUrl := []\<rparr>) Web2Json PublicWeb2 None world0))
   = \<lparr> now = 0,
       trace = [VerifierPost
         \<lparr> r_attestationType = Web2Json, r_sourceId = PublicWeb2,
           requestBody = \<lparr> url = [], httpMethod = ''GET'',
             headers = ''{}'', queryParams = ''{}'', body = ''{}'',
             postProcessJq = ''{name: .name}'', abiSignature = ''(string name)'' \<rparr> \<rparr>] \<rparr>"
  by (simp add: executeAttestationWorkflow_def submitAttestationRequest_def
      prepareAttestationRequest_def execute_def RetryStrategy_new_def num_or_def str_or_def
      FDCService_new_def default_fdcConfig_def no_service_options_def example_params_def world0_def
      always_valid_env_def silent_env_def valid_response_def
      execute_loop.simps prepare_operation_def emit_def Let_def)

end
